theory Spec2Isabelle
  imports Complex_Main "HOL-Library.Char_ord" "HOL-Library.List_Lexorder" "HOL-Library.Multiset"
begin

section \<open>DataService: the in-memory cache\<close>

text \<open>
  \<^verbatim>\<open>static cache = new Map()\<close> maps a key to \<^verbatim>\<open>{ value, timestamp }\<close>.
  \<^verbatim>\<open>Date.now()\<close> is passed in as \<open>now\<close> (milliseconds, an integer), and the updated
  map is returned next to the result. A miss is \<^verbatim>\<open>null\<close> in the source and \<open>None\<close> here.
\<close>

record 'v cacheItem =
  item_value :: 'v
  item_timestamp :: int

type_synonym 'v cache = "string \<rightharpoonup> 'v cacheItem"

definition CACHE_TTL :: int where
  "CACHE_TTL = 5 * 60 * 1000"

definition setCache :: "int \<Rightarrow> 'v cache \<Rightarrow> string \<Rightarrow> 'v \<Rightarrow> 'v cache" where
  "setCache now c key v = c(key \<mapsto> \<lparr>item_value = v, item_timestamp = now\<rparr>)"

definition getCache :: "int \<Rightarrow> 'v cache \<Rightarrow> string \<Rightarrow> 'v option \<times> 'v cache" where
  "getCache now c key =
     (case c key of
        None \<Rightarrow> (None, c)
      | Some item \<Rightarrow>
          if now - item_timestamp item > CACHE_TTL then (None, c(key := None))
          else (Some (item_value item), c))"

definition clearCache :: "'v cache \<Rightarrow> string option \<Rightarrow> 'v cache" where
  "clearCache c key =
     (case key of
        None \<Rightarrow> Map.empty
      | Some k \<Rightarrow> if k = [] then Map.empty else c(k := None))"

section \<open>DataService: the retry wrapper\<close>

text \<open>
  The operation \<^verbatim>\<open>fn\<close> is given by its outcomes: \<open>fn i\<close> is what its invocation number
  \<open>i\<close> (counted from 0) does, \<open>Inl e\<close> when it throws \<open>e\<close> and \<open>Inr v\<close> when it resolves
  to \<open>v\<close>. The loop calls it once per iteration, so the loop index is the invocation
  number. The trace records every invocation and every \<^verbatim>\<open>setTimeout\<close> wait, in order.
  A loop that falls through returns \<^verbatim>\<open>undefined\<close>.
\<close>

datatype event = Invoke nat | Wait nat

datatype ('e, 'a) outcome = Resolved 'a | Rejected 'e | Undefined

definition MAX_RETRIES :: nat where
  "MAX_RETRIES = 3"

definition RETRY_DELAY :: nat where
  "RETRY_DELAY = 1000"

function retryLoop ::
  "(nat \<Rightarrow> 'e + 'a) \<Rightarrow> nat \<Rightarrow> nat \<Rightarrow> event list \<Rightarrow> ('e, 'a) outcome \<times> event list" where
  "retryLoop fn maxRetries i tr =
     (if i < maxRetries then
        (case fn i of
           Inr v \<Rightarrow> (Resolved v, tr @ [Invoke i])
         | Inl err \<Rightarrow>
             if Suc i = maxRetries then (Rejected err, tr @ [Invoke i])
             else retryLoop fn maxRetries (Suc i) (tr @ [Invoke i, Wait (RETRY_DELAY * 2 ^ i)]))
      else (Undefined, tr))"
  by pat_completeness auto
termination
  by (relation "measure (\<lambda>(fn, maxRetries, i, tr). maxRetries - i)") auto

declare retryLoop.simps [simp del]

text \<open>The second argument is optional and defaults to \<^verbatim>\<open>CONFIG.API.MAX_RETRIES\<close>.\<close>

definition retryRequest ::
  "(nat \<Rightarrow> 'e + 'a) \<Rightarrow> nat option \<Rightarrow> ('e, 'a) outcome \<times> event list" where
  "retryRequest fn maxRetries =
     retryLoop fn (case maxRetries of None \<Rightarrow> MAX_RETRIES | Some n \<Rightarrow> n) 0 []"

text \<open>The trace of \<open>k\<close> failed attempts, each followed by its wait.\<close>

definition failedAttempts :: "nat \<Rightarrow> nat \<Rightarrow> event list" where
  "failedAttempts i k = concat (map (\<lambda>j. [Invoke j, Wait (RETRY_DELAY * 2 ^ j)]) [i..<k])"

fun invocations :: "event list \<Rightarrow> nat" where
  "invocations [] = 0"
| "invocations (Invoke _ # tr) = Suc (invocations tr)"
| "invocations (Wait _ # tr) = invocations tr"

fun waits :: "event list \<Rightarrow> nat list" where
  "waits [] = []"
| "waits (Invoke _ # tr) = waits tr"
| "waits (Wait d # tr) = d # waits tr"

section \<open>JavaScript helpers\<close>

text \<open>
  Strings are compared by \<^verbatim>\<open><\<close>, \<^verbatim>\<open>>=\<close> code unit by code unit, a proper prefix first:
  the lexicographic order of \<open>string\<close>. The empty string is the falsy string, so
  \<^verbatim>\<open>a || b\<close> on strings is \<open>orElse\<close>, and an optional argument (\<^verbatim>\<open>null\<close> or absent is
  \<open>None\<close>) passes \<^verbatim>\<open>if (x)\<close> when it is a non-empty string.
\<close>

definition orElse :: "string \<Rightarrow> string \<Rightarrow> string" where
  "orElse a b = (if a = [] then b else a)"

text \<open>
  \<^verbatim>\<open>Array.prototype.sort(compare)\<close> is stable; with a comparator that is a consistent
  ordering its result is the stable insertion sort below, where \<open>x\<close> goes before the
  first \<open>y\<close> with \<open>compare x y \<le> 0\<close>.
\<close>

fun insertBy :: "('a \<Rightarrow> 'a \<Rightarrow> bool) \<Rightarrow> 'a \<Rightarrow> 'a list \<Rightarrow> 'a list" where
  "insertBy le x [] = [x]"
| "insertBy le x (y # ys) = (if le x y then x # y # ys else y # insertBy le x ys)"

definition js_sort :: "('a \<Rightarrow> 'a \<Rightarrow> 'n::{zero,ord}) \<Rightarrow> 'a list \<Rightarrow> 'a list" where
  "js_sort compare xs = foldr (insertBy (\<lambda>a b. compare a b \<le> 0)) xs []"

text \<open>
  \<^verbatim>\<open>String.prototype.localeCompare\<close> is the host's collation and is a parameter. What the
  sorting needs of it is that it orders strings consistently.
\<close>

definition consistentCompare :: "('a \<Rightarrow> 'a \<Rightarrow> int) \<Rightarrow> bool" where
  "consistentCompare cmp \<longleftrightarrow>
     (\<forall>a b. cmp a b \<le> 0 \<or> cmp b a \<le> 0) \<and>
     (\<forall>a b c. cmp a b \<le> 0 \<longrightarrow> cmp b c \<le> 0 \<longrightarrow> cmp a c \<le> 0)"

text \<open>The comparison by code units, a collation that is consistent.\<close>

definition codeUnitCompare :: "string \<Rightarrow> string \<Rightarrow> int" where
  "codeUnitCompare a b = (if a < b then - 1 else if a = b then 0 else 1)"

section \<open>Activities: records, configuration, the sheet\<close>

text \<open>
  An activity as \<^verbatim>\<open>loadActivities\<close> builds it: ten string fields (\<open>act_id\<close>, \<open>act_notes\<close> and
  \<open>act_type\<close> are the source's \<^verbatim>\<open>id\<close>, \<^verbatim>\<open>notes\<close> and \<^verbatim>\<open>type\<close>). A field that is absent from a
  caller's object is the empty string here: the code only tests such fields for
  truthiness.
\<close>

record activity =
  act_id :: string
  act_type :: string
  title :: string
  date :: string
  act_notes :: string
  companyId :: string
  contactId :: string
  status :: string
  createdBy :: string
  createdAt :: string

text \<open>
  The entries of \<^verbatim>\<open>CONFIG.ACTIVITIES.TYPES\<close>, as far as the service reads them. The table
  itself is not part of \<^verbatim>\<open>config.js\<close> as given, so the lookup
  \<^verbatim>\<open>CONFIG.ACTIVITIES.TYPES[typeId] || null\<close> is the parameter \<open>getActivityType\<close>;
  \<open>parsesAsDate s\<close> is \<^verbatim>\<open>!isNaN(new Date(s).getTime())\<close>.
\<close>

record activityType =
  type_label :: string
  requiresTitle :: bool
  requiresDate :: bool

record config =
  getActivityType :: "string \<Rightarrow> activityType option"
  parsesAsDate :: "string \<Rightarrow> bool"
  localeCompare :: "string \<Rightarrow> string \<Rightarrow> int"

text \<open>
  Modelled from the spec: \<^verbatim>\<open>CONFIG.ACTIVITIES.STATUSES\<close> is missing from \<^verbatim>\<open>config.js\<close>; the
  spec names the three states \<^verbatim>\<open>planned\<close>, \<^verbatim>\<open>completed\<close>, \<^verbatim>\<open>cancelled\<close>, the values that
  \<^verbatim>\<open>loadActivities\<close>, \<^verbatim>\<open>getStatusLabel\<close> and \<^verbatim>\<open>getActivityStats\<close> spell out.
\<close>

definition PLANNED :: string where "PLANNED = ''planned''"
definition COMPLETED :: string where "COMPLETED = ''completed''"
definition CANCELLED :: string where "CANCELLED = ''cancelled''"

text \<open>
  What a call reads from its surroundings: the signed-in user's e-mail
  (\<^verbatim>\<open>AuthService.getUserEmail() || ''\<close>), the clock and the next generated id.
  \<^verbatim>\<open>new Date().toISOString()\<close> is the date, the letter \<^verbatim>\<open>T\<close> and the time
  (\<^verbatim>\<open>2024-06-15T10:00:00.000Z\<close>).
\<close>

record env =
  userEmail :: string
  nowDate :: string
  nowTime :: string
  freshId :: string

definition nowIso :: "env \<Rightarrow> string" where
  "nowIso e = nowDate e @ CHR ''T'' # nowTime e"

definition today :: "env \<Rightarrow> string" where
  "today e = takeWhile (\<lambda>c. c \<noteq> CHR ''T'') (nowIso e)"

text \<open>
  The activities sheet is the list of its data rows from row 2 down, each a list of
  cells; a cleared row is the empty list. \<^verbatim>\<open>row[i] || d\<close> is \<open>orElse (cell row i) d\<close>.
  Cells are taken to be stored as written.
\<close>

type_synonym row = "string list"

definition cell :: "row \<Rightarrow> nat \<Rightarrow> string" where
  "cell r i = (if i < length r then r ! i else [])"

definition toActivity :: "row \<Rightarrow> activity" where
  "toActivity r =
     \<lparr>act_id = orElse (cell r 0) [],
      act_type = orElse (cell r 1) [],
      title = orElse (cell r 2) [],
      date = orElse (cell r 3) [],
      act_notes = orElse (cell r 4) [],
      companyId = orElse (cell r 5) [],
      contactId = orElse (cell r 6) [],
      status = orElse (cell r 7) ''planned'',
      createdBy = orElse (cell r 8) [],
      createdAt = orElse (cell r 9) []\<rparr>"

definition loadActivities :: "row list \<Rightarrow> activity list" where
  "loadActivities rows = filter (\<lambda>a. act_id a \<noteq> []) (map toActivity rows)"

definition toRow :: "env \<Rightarrow> activity \<Rightarrow> row" where
  "toRow e a =
     [orElse (act_id a) (freshId e),
      orElse (act_type a) [],
      orElse (title a) [],
      orElse (date a) [],
      orElse (act_notes a) [],
      orElse (companyId a) [],
      orElse (contactId a) [],
      orElse (status a) ''planned'',
      orElse (createdBy a) (orElse (userEmail e) []),
      orElse (createdAt a) (nowIso e)]"

text \<open>
  \<^verbatim>\<open>values.update\<close> overwrites the data row \<open>rowIndex\<close> (sheet row \<open>rowIndex + 2\<close>), padding
  with blank rows when it lies below the data; \<^verbatim>\<open>values.append\<close> adds a row at the end.
\<close>

definition saveActivity :: "env \<Rightarrow> row list \<Rightarrow> activity \<Rightarrow> nat option \<Rightarrow> row list" where
  "saveActivity e rows a rowIndex =
     (case rowIndex of
        None \<Rightarrow> rows @ [toRow e a]
      | Some i \<Rightarrow>
          if i < length rows then rows[i := toRow e a]
          else rows @ replicate (i - length rows) [] @ [toRow e a])"

fun findIndex :: "('a \<Rightarrow> bool) \<Rightarrow> 'a list \<Rightarrow> nat option" where
  "findIndex P [] = None"
| "findIndex P (x # xs) = (if P x then Some 0 else map_option Suc (findIndex P xs))"

section \<open>ActivitiesService\<close>

subsection \<open>validateActivity\<close>

text \<open>
  The five messages pushed to \<^verbatim>\<open>errors\<close>, in the order of the source: invalid activity
  type (with the offending type), title required, date required, activity must be linked
  to a company or a contact, invalid date format.
\<close>

datatype validationError =
  InvalidType string | TitleRequired | DateRequired | LinkRequired | InvalidDateFormat

record validation =
  valid :: bool
  errors :: "validationError list"

definition validateActivity :: "config \<Rightarrow> activity \<Rightarrow> validation" where
  "validateActivity cfg a =
     (let errors1 =
            (case getActivityType cfg (act_type a) of
               None \<Rightarrow> [InvalidType (act_type a)]
             | Some activityType \<Rightarrow>
                 (if requiresTitle activityType \<and> title a = [] then [TitleRequired] else []) @
                 (if requiresDate activityType \<and> date a = [] then [DateRequired] else []));
          errors2 =
            (if companyId a = [] \<and> contactId a = [] then errors1 @ [LinkRequired] else errors1);
          errors3 =
            (if date a \<noteq> [] \<and> \<not> parsesAsDate cfg (date a) then errors2 @ [InvalidDateFormat]
             else errors2)
      in \<lparr>valid = (length errors3 = 0), errors = errors3\<rparr>)"

text \<open>
  The rules as the specification lists them, each with the condition under which it is
  violated, and the rule an error message reports.
\<close>

datatype rule = UnknownType | MissingTitle | MissingDate | MissingLink | UnparsableDate

fun violated :: "config \<Rightarrow> activity \<Rightarrow> rule \<Rightarrow> bool" where
  "violated cfg a UnknownType = (getActivityType cfg (act_type a) = None)"
| "violated cfg a MissingTitle =
     (case getActivityType cfg (act_type a) of None \<Rightarrow> False
      | Some t \<Rightarrow> requiresTitle t \<and> title a = [])"
| "violated cfg a MissingDate =
     (case getActivityType cfg (act_type a) of None \<Rightarrow> False
      | Some t \<Rightarrow> requiresDate t \<and> date a = [])"
| "violated cfg a MissingLink = (companyId a = [] \<and> contactId a = [])"
| "violated cfg a UnparsableDate = (date a \<noteq> [] \<and> \<not> parsesAsDate cfg (date a))"

fun ruleOf :: "validationError \<Rightarrow> rule" where
  "ruleOf (InvalidType _) = UnknownType"
| "ruleOf TitleRequired = MissingTitle"
| "ruleOf DateRequired = MissingDate"
| "ruleOf LinkRequired = MissingLink"
| "ruleOf InvalidDateFormat = UnparsableDate"

definition allRules :: "rule list" where
  "allRules = [UnknownType, MissingTitle, MissingDate, MissingLink, UnparsableDate]"

subsection \<open>updateActivity, completeActivity, cancelActivity\<close>

text \<open>
  The \<^verbatim>\<open>updates\<close> object: a field it carries is \<open>Some\<close>, one it does not carry is \<open>None\<close>.
  The spread \<^verbatim>\<open>{...activities[index], ...updates, id: activityId}\<close> takes every carried
  field from the updates and always sets the id.
\<close>

record updates =
  u_id :: "string option"
  u_type :: "string option"
  u_title :: "string option"
  u_date :: "string option"
  u_notes :: "string option"
  u_companyId :: "string option"
  u_contactId :: "string option"
  u_status :: "string option"
  u_createdBy :: "string option"
  u_createdAt :: "string option"

definition noUpdates :: updates where
  "noUpdates =
     \<lparr>u_id = None, u_type = None, u_title = None, u_date = None, u_notes = None,
      u_companyId = None, u_contactId = None, u_status = None, u_createdBy = None,
      u_createdAt = None\<rparr>"

definition carried :: "string option \<Rightarrow> string \<Rightarrow> string" where
  "carried u old = (case u of None \<Rightarrow> old | Some v \<Rightarrow> v)"

definition spread :: "activity \<Rightarrow> updates \<Rightarrow> string \<Rightarrow> activity" where
  "spread a u activityId =
     \<lparr>act_id = activityId,
      act_type = carried (u_type u) (act_type a),
      title = carried (u_title u) (title a),
      date = carried (u_date u) (date a),
      act_notes = carried (u_notes u) (act_notes a),
      companyId = carried (u_companyId u) (companyId a),
      contactId = carried (u_contactId u) (contactId a),
      status = carried (u_status u) (status a),
      createdBy = carried (u_createdBy u) (createdBy a),
      createdAt = carried (u_createdAt u) (createdAt a)\<rparr>"

text \<open>
  The two ways \<^verbatim>\<open>updateActivity\<close> throws. The remote calls are taken to succeed (their
  failures are \<^verbatim>\<open>retryRequest\<close>'s business), and the history entries, which go to other
  sheets, are left out. The result is the activities sheet after the write and the
  activity returned.
\<close>

datatype error = NotFound | ValidationFailed "validationError list"

definition updateActivity ::
  "config \<Rightarrow> env \<Rightarrow> row list \<Rightarrow> string \<Rightarrow> updates \<Rightarrow> error + row list \<times> activity" where
  "updateActivity cfg e rows activityId u =
     (let activities = loadActivities rows in
      case findIndex (\<lambda>a. act_id a = activityId) activities of
        None \<Rightarrow> Inl NotFound
      | Some index \<Rightarrow>
          (let a = spread (activities ! index) u activityId;
               validation = validateActivity cfg a
           in if \<not> valid validation then Inl (ValidationFailed (errors validation))
              else Inr (saveActivity e rows a (Some index), a)))"

definition completeActivity ::
  "config \<Rightarrow> env \<Rightarrow> row list \<Rightarrow> string \<Rightarrow> error + row list \<times> activity" where
  "completeActivity cfg e rows activityId =
     updateActivity cfg e rows activityId (noUpdates\<lparr>u_status := Some COMPLETED\<rparr>)"

definition cancelActivity ::
  "config \<Rightarrow> env \<Rightarrow> row list \<Rightarrow> string \<Rightarrow> error + row list \<times> activity" where
  "cancelActivity cfg e rows activityId =
     updateActivity cfg e rows activityId (noUpdates\<lparr>u_status := Some CANCELLED\<rparr>)"

text \<open>The record stored under an id: the first one a fresh load finds.\<close>

definition stored :: "row list \<Rightarrow> string \<Rightarrow> activity option" where
  "stored rows activityId = find (\<lambda>a. act_id a = activityId) (loadActivities rows)"

definition storedStatus :: "row list \<Rightarrow> string \<Rightarrow> string option" where
  "storedStatus rows activityId = map_option status (stored rows activityId)"

text \<open>The sheet an operation leaves: the one it wrote, or the old one when it threw.\<close>

definition sheetAfter :: "row list \<Rightarrow> error + row list \<times> activity \<Rightarrow> row list" where
  "sheetAfter rows r = (case r of Inl _ \<Rightarrow> rows | Inr (rows', _) \<Rightarrow> rows')"

subsection \<open>Queries\<close>

text \<open>
  \<open>activities\<close> is what \<^verbatim>\<open>await DataService.loadActivities()\<close> returned. The optional
  arguments narrow the list when they are truthy.
\<close>

definition narrowBy ::
  "string option \<Rightarrow> (string \<Rightarrow> activity \<Rightarrow> bool) \<Rightarrow> activity list \<Rightarrow> activity list" where
  "narrowBy x P xs = (case x of None \<Rightarrow> xs | Some s \<Rightarrow> if s = [] then xs else filter (P s) xs)"

definition getUpcomingActivities ::
  "config \<Rightarrow> env \<Rightarrow> activity list \<Rightarrow> string option \<Rightarrow> string option \<Rightarrow> activity list" where
  "getUpcomingActivities cfg e activities companyId' contactId' =
     (let filtered = filter (\<lambda>a. status a = PLANNED \<and> date a \<ge> today e) activities;
          filtered = narrowBy companyId' (\<lambda>s a. companyId a = s) filtered;
          filtered = narrowBy contactId' (\<lambda>s a. contactId a = s) filtered
      in js_sort (\<lambda>a b. localeCompare cfg (date a) (date b)) filtered)"

definition getOverdueActivities :: "config \<Rightarrow> env \<Rightarrow> activity list \<Rightarrow> activity list" where
  "getOverdueActivities cfg e activities =
     (let overdue = filter (\<lambda>a. status a = PLANNED \<and> date a < today e) activities
      in js_sort (\<lambda>a b. localeCompare cfg (date a) (date b)) overdue)"

record filters =
  f_type :: "string option"
  f_status :: "string option"
  dateFrom :: "string option"
  dateTo :: "string option"

definition applyFilters :: "config \<Rightarrow> activity list \<Rightarrow> filters \<Rightarrow> activity list" where
  "applyFilters cfg activities fs =
     (let filtered = activities;
          filtered = narrowBy (f_type fs) (\<lambda>s a. act_type a = s) filtered;
          filtered = narrowBy (f_status fs) (\<lambda>s a. status a = s) filtered;
          filtered = narrowBy (dateFrom fs) (\<lambda>s a. date a \<ge> s) filtered;
          filtered = narrowBy (dateTo fs) (\<lambda>s a. date a \<le> s) filtered
      in js_sort (\<lambda>a b. localeCompare cfg (date b) (date a)) filtered)"

text \<open>What a filter field demands of a value: nothing when it is absent or empty.\<close>

definition demands :: "string option \<Rightarrow> (string \<Rightarrow> bool) \<Rightarrow> bool" where
  "demands x P = (case x of None \<Rightarrow> True | Some s \<Rightarrow> if s = [] then True else P s)"

subsection \<open>getActivityStats\<close>

text \<open>
  \<^verbatim>\<open>byType\<close> and \<^verbatim>\<open>byStatus\<close> are plain objects. An object is the association list of its
  own properties, in insertion order, on top of \<^verbatim>\<open>Object.prototype\<close>. A read \<^verbatim>\<open>obj[k]\<close> finds
  the own property, else the member of \<^verbatim>\<open>Object.prototype\<close> of that name (a function, or the
  prototype itself for \<^verbatim>\<open>__proto__\<close>), else \<^verbatim>\<open>undefined\<close>. An assignment \<^verbatim>\<open>obj[k] = v\<close> creates
  or overwrites the own property, except under the name \<^verbatim>\<open>__proto__\<close>: there the inherited
  setter runs, which ignores a value that is not an object.
\<close>

fun setKey :: "'k \<Rightarrow> 'v \<Rightarrow> ('k \<times> 'v) list \<Rightarrow> ('k \<times> 'v) list" where
  "setKey k v [] = [(k, v)]"
| "setKey k v ((k', v') # kvs) = (if k' = k then (k, v) # kvs else (k', v') # setKey k v kvs)"

definition prototypeMembers :: "string list" where
  "prototypeMembers =
     [''constructor'', ''__defineGetter__'', ''__defineSetter__'', ''hasOwnProperty'',
      ''__lookupGetter__'', ''__lookupSetter__'', ''isPrototypeOf'', ''propertyIsEnumerable'',
      ''toString'', ''valueOf'', ''__proto__'', ''toLocaleString'']"

datatype 'v property = Own 'v | Inherited | Missing

definition getProp :: "(string \<times> 'v) list \<Rightarrow> string \<Rightarrow> 'v property" where
  "getProp obj k =
     (case map_of obj k of
        Some v \<Rightarrow> Own v
      | None \<Rightarrow> if k \<in> set prototypeMembers then Inherited else Missing)"

definition setProp :: "string \<Rightarrow> 'v \<Rightarrow> (string \<times> 'v) list \<Rightarrow> (string \<times> 'v) list" where
  "setProp k v obj = (if k = ''__proto__'' then obj else setKey k v obj)"

text \<open>
  What \<^verbatim>\<open>(stats.byType[t] || 0) + 1\<close> can store under a type: a number, or the text that
  \<^verbatim>\<open>+\<close> makes of a value that is not a number. \<open>memberText k\<close> is the text of the inherited
  member \<open>k\<close> (\<^verbatim>\<open>String(Object.prototype[k])\<close>, which the host determines).
  What \<^verbatim>\<open>stats.byStatus[s]++\<close> can store under a status: a number, or \<^verbatim>\<open>NaN\<close> when the value
  read is not a number.
\<close>

datatype typeCount = Count nat | Text string

datatype statusCount = Tally nat | NaN

record stats =
  total_count :: nat
  byType :: "(string \<times> typeCount) list"
  byStatus :: "(string \<times> statusCount) list"
  upcoming :: nat
  overdue :: nat

definition countType ::
  "(string \<Rightarrow> string) \<Rightarrow> string \<Rightarrow> (string \<times> typeCount) list \<Rightarrow> (string \<times> typeCount) list" where
  "countType memberText t m =
     setProp t
       (case getProp m t of
          Missing \<Rightarrow> Count 1
        | Own (Count n) \<Rightarrow> Count (n + 1)
        | Own (Text s) \<Rightarrow> if s = [] then Count 1 else Text (s @ ''1'')
        | Inherited \<Rightarrow> Text (memberText t @ ''1''))
       m"

definition countStatus ::
  "string \<Rightarrow> (string \<times> statusCount) list \<Rightarrow> (string \<times> statusCount) list" where
  "countStatus s m =
     (case getProp m s of
        Missing \<Rightarrow> m
      | Own (Tally n) \<Rightarrow> setProp s (Tally (n + 1)) m
      | Own NaN \<Rightarrow> setProp s NaN m
      | Inherited \<Rightarrow> setProp s NaN m)"

definition statsStep :: "(string \<Rightarrow> string) \<Rightarrow> string \<Rightarrow> stats \<Rightarrow> activity \<Rightarrow> stats" where
  "statsStep memberText today' st a =
     (let st = st\<lparr>byType := countType memberText (act_type a) (byType st)\<rparr>;
          st = st\<lparr>byStatus := countStatus (status a) (byStatus st)\<rparr>
      in if status a = PLANNED then
           (if date a \<ge> today' then st\<lparr>upcoming := upcoming st + 1\<rparr>
            else st\<lparr>overdue := overdue st + 1\<rparr>)
         else st)"

definition getActivityStats ::
  "(string \<Rightarrow> string) \<Rightarrow> env \<Rightarrow> activity list \<Rightarrow> string option \<Rightarrow> string option \<Rightarrow> stats" where
  "getActivityStats memberText e activities companyId' contactId' =
     (let filtered = activities;
          filtered = narrowBy companyId' (\<lambda>s a. companyId a = s) filtered;
          filtered = narrowBy contactId' (\<lambda>s a. contactId a = s) filtered;
          stats0 = \<lparr>total_count = length filtered, byType = [],
                    byStatus = [(''planned'', Tally 0), (''completed'', Tally 0),
                                (''cancelled'', Tally 0)],
                    upcoming = 0, overdue = 0\<rparr>
      in foldl (statsStep memberText (today e)) stats0 filtered)"

text \<open>The numbers among the values of \<^verbatim>\<open>byType\<close>, added up.\<close>

fun countSum :: "(string \<times> typeCount) list \<Rightarrow> nat" where
  "countSum [] = 0"
| "countSum ((k, Count n) # m) = n + countSum m"
| "countSum ((k, Text s) # m) = countSum m"

section \<open>Custom fields\<close>

subsection \<open>loadCustomFieldDefinitions\<close>

text \<open>
  A JavaScript number is finite (a rational) or one of \<^verbatim>\<open>NaN\<close>, \<^verbatim>\<open>Infinity\<close>,
  \<^verbatim>\<open>-Infinity\<close>. The built-in \<^verbatim>\<open>Number(x)\<close> is a parameter: on a missing cell
  (\<^verbatim>\<open>undefined\<close>, \<open>None\<close>) or on the text of a cell.
\<close>

datatype jsnum = Finite rat | NotFinite

definition cellOpt :: "row \<Rightarrow> nat \<Rightarrow> string option" where
  "cellOpt r i = (if i < length r then Some (r ! i) else None)"

text \<open>
  \<^verbatim>\<open>toLowerCase\<close> on the letters A to Z; no other character is mapped to one of the
  characters of \<^verbatim>\<open>true\<close>, \<^verbatim>\<open>1\<close> or \<^verbatim>\<open>yes\<close>.
\<close>

definition lowerChar :: "char \<Rightarrow> char" where
  "lowerChar c =
     (case map_of (zip ''ABCDEFGHIJKLMNOPQRSTUVWXYZ'' ''abcdefghijklmnopqrstuvwxyz'') c of
        None \<Rightarrow> c
      | Some l \<Rightarrow> l)"

definition toLowerCase :: "string \<Rightarrow> string" where
  "toLowerCase s = map lowerChar s"

record fieldDef =
  cf_rowIndex :: nat
  cf_id :: string
  entityType :: string
  key :: string
  label :: string
  fieldType :: string
  optionsJson :: string
  required :: bool
  enabled :: bool
  order_no :: "rat option"
  cf_createdAt :: string
  cf_updatedAt :: string

definition toDefinition ::
  "(string option \<Rightarrow> jsnum) \<Rightarrow> (nat \<Rightarrow> string) \<Rightarrow> nat \<Rightarrow> row \<Rightarrow> fieldDef" where
  "toDefinition Number generateId idx r =
     (let requiredRaw = toLowerCase (orElse (cell r 6) []);
          enabledRaw = toLowerCase (orElse (cell r 7) []);
          orderRaw = cellOpt r 8
      in \<lparr>cf_rowIndex = idx,
          cf_id = orElse (cell r 0) (generateId idx),
          entityType = orElse (cell r 1) ''both'',
          key = orElse (cell r 2) [],
          label = orElse (cell r 3) [],
          fieldType = orElse (cell r 4) ''text'',
          optionsJson = orElse (cell r 5) [],
          required = (requiredRaw = ''true'' \<or> requiredRaw = ''1'' \<or> requiredRaw = ''yes''),
          enabled = (if enabledRaw = [] then True
                     else (enabledRaw = ''true'' \<or> enabledRaw = ''1'' \<or> enabledRaw = ''yes'')),
          order_no = (case Number orderRaw of Finite q \<Rightarrow> Some q | NotFinite \<Rightarrow> Some 0),
          cf_createdAt = orElse (cell r 9) [],
          cf_updatedAt = orElse (cell r 10) []\<rparr>)"

definition loadCustomFieldDefinitions ::
  "(string option \<Rightarrow> jsnum) \<Rightarrow> (nat \<Rightarrow> string) \<Rightarrow> row list \<Rightarrow> fieldDef list" where
  "loadCustomFieldDefinitions Number generateId rows =
     filter (\<lambda>d. label d \<noteq> [] \<and> key d \<noteq> [])
       (map (\<lambda>(idx, r). toDefinition Number generateId idx r) (enumerate 0 rows))"

subsection \<open>CustomFieldsUI: mount and collect, both variants\<close>

text \<open>
  The repository holds two variants of \<^verbatim>\<open>CustomFieldsUI\<close>. The first one checks
  \<^verbatim>\<open>def.enabled\<close> in \<^verbatim>\<open>buildField\<close>, \<^verbatim>\<open>mount\<close> and \<^verbatim>\<open>collect\<close> (and reads the label and the
  field type as \<^verbatim>\<open>def.name\<close> and \<^verbatim>\<open>def.type\<close>); the second one has no such check.

  The HTML of one form control is kept as a record of what it is built from: the input
  id, the key, the kind of control chosen by the \<^verbatim>\<open>switch\<close>, the required mark, the
  label and the value shown. \<^verbatim>\<open>innerHTML\<close> is the list of controls, and the empty string
  that \<^verbatim>\<open>buildField\<close> returns for a disabled definition is the empty list.
\<close>

datatype jsval = JBool bool | JStr string | JNum jsnum

datatype controlKind =
  Textarea | NumberInput | DateInput | EmailInput | UrlInput | Checkbox | Select | TextInput

record control =
  inputId :: string
  dataKey :: string
  kind :: controlKind
  requiredAttr :: bool
  labelText :: string
  shown :: jsval

definition safeChar :: "char \<Rightarrow> char" where
  "safeChar c =
     (if c \<in> set ''abcdefghijklmnopqrstuvwxyzABCDEFGHIJKLMNOPQRSTUVWXYZ0123456789_-'' then c
      else CHR ''_'')"

definition safeId :: "string \<Rightarrow> string" where
  "safeId s = map safeChar s"

definition kindOf :: "string \<Rightarrow> controlKind" where
  "kindOf t =
     (let s = toLowerCase (orElse t ''text'')
      in if s = ''textarea'' then Textarea
         else if s = ''number'' then NumberInput
         else if s = ''date'' then DateInput
         else if s = ''email'' then EmailInput
         else if s = ''url'' then UrlInput
         else if s = ''checkbox'' then Checkbox
         else if s = ''select'' then Select
         else TextInput)"

definition renderField :: "fieldDef \<Rightarrow> jsval option \<Rightarrow> string \<Rightarrow> control" where
  "renderField d v idPrefix =
     \<lparr>inputId = idPrefix @ safeId (key d),
      dataKey = key d,
      kind = kindOf (fieldType d),
      requiredAttr = required d,
      labelText = label d,
      shown = (case v of None \<Rightarrow> JStr [] | Some x \<Rightarrow> x)\<rparr>"

definition buildField1 :: "fieldDef \<Rightarrow> jsval option \<Rightarrow> string \<Rightarrow> control list" where
  "buildField1 d v idPrefix = (if \<not> enabled d then [] else [renderField d v idPrefix])"

definition buildField2 :: "fieldDef \<Rightarrow> jsval option \<Rightarrow> string \<Rightarrow> control list" where
  "buildField2 d v idPrefix = [renderField d v idPrefix]"

definition orderCompare :: "fieldDef \<Rightarrow> fieldDef \<Rightarrow> rat" where
  "orderCompare a b =
     (case order_no a of None \<Rightarrow> 0 | Some x \<Rightarrow> x) - (case order_no b of None \<Rightarrow> 0 | Some y \<Rightarrow> y)"

text \<open>
  \<open>mount\<close> yields the \<^verbatim>\<open>innerHTML\<close> it assigns. \<open>hasContainer\<close> tells whether
  \<^verbatim>\<open>containerEl\<close> is an element; without one the first variant returns early and the
  second throws, and nothing is rendered (\<open>None\<close>).
\<close>

definition mount1 ::
  "bool \<Rightarrow> fieldDef list \<Rightarrow> (string \<Rightarrow> jsval option) \<Rightarrow> string \<Rightarrow> control list option" where
  "mount1 hasContainer defs vals idPrefix =
     (if \<not> hasContainer then None
      else (let sorted = js_sort orderCompare (filter enabled defs)
            in Some (concat (map (\<lambda>d. buildField1 d (vals (key d)) idPrefix) sorted))))"

definition mount2 ::
  "bool \<Rightarrow> fieldDef list \<Rightarrow> (string \<Rightarrow> jsval option) \<Rightarrow> string \<Rightarrow> control list option" where
  "mount2 hasContainer defs vals idPrefix =
     (let sorted = js_sort orderCompare defs
      in if \<not> hasContainer then None
         else Some (concat (map (\<lambda>d. buildField2 d (vals (key d)) idPrefix) sorted)))"

text \<open>
  The container as \<^verbatim>\<open>collect\<close> sees it: \<^verbatim>\<open>querySelector\<close> by input id, giving an element
  with its \<^verbatim>\<open>checked\<close> flag and its \<^verbatim>\<open>value\<close> (\<open>None\<close> when \<^verbatim>\<open>undefined\<close>). The result
  object is an association list in insertion order.
\<close>

record element =
  checked :: bool
  el_value :: "string option"

definition readControl :: "(string option \<Rightarrow> jsnum) \<Rightarrow> fieldDef \<Rightarrow> element \<Rightarrow> jsval" where
  "readControl Number d el =
     (let s = toLowerCase (orElse (fieldType d) ''text'')
      in if s = ''checkbox'' then JBool (checked el)
         else if s = ''number'' then
           (if el_value el = Some [] then JStr [] else JNum (Number (el_value el)))
         else (case el_value el of None \<Rightarrow> JStr [] | Some x \<Rightarrow> JStr x))"

definition collectStep1 ::
  "(string option \<Rightarrow> jsnum) \<Rightarrow> (string \<Rightarrow> element option) \<Rightarrow> string \<Rightarrow>
   (string \<times> jsval) list \<Rightarrow> fieldDef \<Rightarrow> (string \<times> jsval) list" where
  "collectStep1 Number containerEl idPrefix result d =
     (if \<not> enabled d then result
      else (case containerEl (idPrefix @ safeId (key d)) of
              None \<Rightarrow> result
            | Some el \<Rightarrow> setKey (key d) (readControl Number d el) result))"

definition collect1 ::
  "(string option \<Rightarrow> jsnum) \<Rightarrow> (string \<Rightarrow> element option) option \<Rightarrow> fieldDef list \<Rightarrow> string \<Rightarrow>
   (string \<times> jsval) list" where
  "collect1 Number containerEl defs idPrefix =
     (case containerEl of
        None \<Rightarrow> []
      | Some c \<Rightarrow> foldl (collectStep1 Number c idPrefix) [] defs)"

definition collectStep2 ::
  "(string option \<Rightarrow> jsnum) \<Rightarrow> (string \<Rightarrow> element option) \<Rightarrow> string \<Rightarrow>
   (string \<times> jsval) list \<Rightarrow> fieldDef \<Rightarrow> (string \<times> jsval) list" where
  "collectStep2 Number containerEl idPrefix result d =
     (case containerEl (idPrefix @ safeId (key d)) of
        None \<Rightarrow> result
      | Some el \<Rightarrow> setKey (key d) (readControl Number d el) result)"

text \<open>The second variant is given a container (it throws on \<^verbatim>\<open>null\<close>).\<close>

definition collect2 ::
  "(string option \<Rightarrow> jsnum) \<Rightarrow> (string \<Rightarrow> element option) \<Rightarrow> fieldDef list \<Rightarrow> string \<Rightarrow>
   (string \<times> jsval) list" where
  "collect2 Number containerEl defs idPrefix = foldl (collectStep2 Number containerEl idPrefix) [] defs"

section \<open>An example configuration\<close>

text \<open>
  Modelled from the spec: \<^verbatim>\<open>CONFIG.ACTIVITIES.TYPES\<close> is missing from \<^verbatim>\<open>config.js\<close>; the spec
  names the four types \<^verbatim>\<open>EMAIL\<close>, \<^verbatim>\<open>PHONE\<close>, \<^verbatim>\<open>MEETING\<close>, \<^verbatim>\<open>TASK\<close> and leaves open which
  of them require a title or a date. In this example every type requires a title and a
  meeting requires a date as well; a date parses when it starts like \<^verbatim>\<open>yyyy-mm-dd\<close>; and
  strings are collated by code units. It is used to run the operations on concrete data.
\<close>

definition exampleTypes :: "string \<Rightarrow> activityType option" where
  "exampleTypes t =
     (if t = ''EMAIL'' then
        Some \<lparr>type_label = ''E-mail'', requiresTitle = True, requiresDate = False\<rparr>
      else if t = ''PHONE'' then
        Some \<lparr>type_label = ''Telefon'', requiresTitle = True, requiresDate = False\<rparr>
      else if t = ''MEETING'' then
        Some \<lparr>type_label = ''Spotkanie'', requiresTitle = True, requiresDate = True\<rparr>
      else if t = ''TASK'' then
        Some \<lparr>type_label = ''Zadanie'', requiresTitle = True, requiresDate = False\<rparr>
      else None)"

definition isoLike :: "string \<Rightarrow> bool" where
  "isoLike s \<longleftrightarrow> 10 \<le> length s \<and> s ! 4 = CHR ''-'' \<and> s ! 7 = CHR ''-''"

definition exampleConfig :: config where
  "exampleConfig =
     \<lparr>getActivityType = exampleTypes, parsesAsDate = isoLike, localeCompare = codeUnitCompare\<rparr>"

definition exampleEnv :: env where
  "exampleEnv =
     \<lparr>userEmail = ''anna@example.com'', nowDate = ''2024-06-15'', nowTime = ''10:00:00.000Z'',
      freshId = ''id_1718445600000_k3j9x2m1q''\<rparr>"


text \<open>A sheet with four activities and one cleared row (a deleted activity).\<close>

definition exampleRows :: "row list" where
  "exampleRows =
     [[''a1'', ''TASK'', ''Send offer'', ''2024-06-20T09:00:00.000Z'', [], ''c1'', [],
       ''planned'', ''anna@example.com'', ''2024-06-01T08:00:00.000Z''],
      [],
      [''a2'', ''MEETING'', ''Kickoff'', ''2024-06-01T09:00:00.000Z'', ''done'', ''c1'', ''p1'',
       ''completed'', ''anna@example.com'', ''2024-05-20T08:00:00.000Z''],
      [''a3'', ''EMAIL'', ''Follow up'', ''2024-06-10T12:00:00.000Z'', [], [], ''p1''],
      [''a4'', ''PHONE'', ''Call back'', ''2024-06-18T15:00:00.000Z'', [], ''c2'', [],
       ''planned'', ''jan@example.com'', ''2024-06-12T08:00:00.000Z'']]"

text \<open>
  An example of \<^verbatim>\<open>Number(x)\<close> on the cells used below: the empty string is \<open>0\<close>, the
  digit strings shown are their numbers, everything else (and \<^verbatim>\<open>undefined\<close>) is \<^verbatim>\<open>NaN\<close>.
\<close>

definition exampleNumber :: "string option \<Rightarrow> jsnum" where
  "exampleNumber x =
     (case x of
        None \<Rightarrow> NotFinite
      | Some s \<Rightarrow>
          if s = [] then Finite 0
          else if s = ''1'' then Finite 1
          else if s = ''2'' then Finite 2
          else if s = ''500'' then Finite 500
          else NotFinite)"

text \<open>A sheet whose only activity is completed.\<close>

definition doneRows :: "row list" where
  "doneRows =
     [[''a2'', ''MEETING'', ''Kickoff'', ''2024-06-01T09:00:00.000Z'', ''done'', ''c1'', ''p1'',
       ''completed'', ''anna@example.com'', ''2024-05-20T08:00:00.000Z'']]"

text \<open>
  A sheet with activities dated on the clock's day of \<open>exampleEnv\<close>, the day before and
  the day after.
\<close>

definition clockDayRows :: "row list" where
  "clockDayRows =
     [[''d1'', ''TASK'', ''Later today'', ''2024-06-15T18:00:00.000Z'', [], ''c1'', [], ''planned''],
      [''d2'', ''TASK'', ''Yesterday'', ''2024-06-14T23:30:00.000Z'', [], ''c1'', [], ''planned''],
      [''d3'', ''PHONE'', ''Earlier today'', ''2024-06-15T08:00:00.000Z'', [], ''c2'', [], ''planned''],
      [''d4'', ''EMAIL'', ''Tomorrow'', ''2024-06-16T09:00:00.000Z'', [], ''c1'', [], ''planned''],
      [''d5'', ''TASK'', ''Today, no time'', ''2024-06-15'', [], ''c1'', [], ''planned''],
      [''d6'', ''TASK'', ''Done today'', ''2024-06-15T09:00:00.000Z'', [], ''c1'', [], ''completed'']]"



text \<open>
  A sheet with a type named \<^verbatim>\<open>__proto__\<close>, a type named \<^verbatim>\<open>toString\<close> and a status named
  \<^verbatim>\<open>constructor\<close>, and the text a host gives for an inherited function.
\<close>

definition inheritedNameRows :: "row list" where
  "inheritedNameRows =
     [[''b1'', ''__proto__'', ''First'', ''2024-06-20T09:00:00.000Z'', [], ''c1'', [], ''planned''],
      [''b2'', ''toString'', ''Second'', ''2024-06-21T09:00:00.000Z'', [], ''c1'', [],
       ''constructor''],
      [''b3'', ''TASK'', ''Third'', ''2024-06-01T09:00:00.000Z'', [], ''c1'', [], ''planned'']]"

definition exampleMemberText :: "string \<Rightarrow> string" where
  "exampleMemberText k = ''function '' @ k @ ''() { [native code] }''"

text \<open>An object all of whose values are numbers.\<close>

fun allCounts :: "(string \<times> typeCount) list \<Rightarrow> bool" where
  "allCounts [] = True"
| "allCounts ((k, Count n) # m) = allCounts m"
| "allCounts ((k, Text s) # m) = False"

section \<open>Notions of the specification for the custom fields\<close>

text \<open>
  Comparing a cell with a lower-case literal without regard to case, as the
  specification words it: the same length, and each character the literal's character
  or its capital.
\<close>

definition upperOf :: "char \<Rightarrow> char" where
  "upperOf l =
     (case map_of (zip ''abcdefghijklmnopqrstuvwxyz'' ''ABCDEFGHIJKLMNOPQRSTUVWXYZ'') l of
        None \<Rightarrow> l
      | Some u \<Rightarrow> u)"

definition equalsIgnoringCase :: "string \<Rightarrow> string \<Rightarrow> bool" where
  "equalsIgnoringCase s lit \<longleftrightarrow> list_all2 (\<lambda>c l. c = l \<or> c = upperOf l) s lit"

definition decodesTrue :: "string \<Rightarrow> bool" where
  "decodesTrue s \<longleftrightarrow>
     equalsIgnoringCase s ''true'' \<or> equalsIgnoringCase s ''1'' \<or> equalsIgnoringCase s ''yes''"

text \<open>A disabled and an enabled definition, and a container that holds a control for each.\<close>

definition disabledDef :: fieldDef where
  "disabledDef =
     \<lparr>cf_rowIndex = 0, cf_id = ''f1'', entityType = ''company'', key = ''budget'',
      label = ''Budget'', fieldType = ''number'', optionsJson = [], required = False,
      enabled = False, order_no = Some 2, cf_createdAt = [], cf_updatedAt = []\<rparr>"

definition enabledDef :: fieldDef where
  "enabledDef =
     \<lparr>cf_rowIndex = 1, cf_id = ''f2'', entityType = ''company'', key = ''vip'',
      label = ''VIP'', fieldType = ''checkbox'', optionsJson = [], required = False,
      enabled = True, order_no = Some 1, cf_createdAt = [], cf_updatedAt = []\<rparr>"

definition exampleContainer :: "string \<Rightarrow> element option" where
  "exampleContainer i =
     (if i = ''cf_budget'' then Some \<lparr>checked = False, el_value = Some ''500''\<rparr>
      else if i = ''cf_vip'' then Some \<lparr>checked = True, el_value = Some ''on''\<rparr>
      else None)"

section \<open>Properties of the cache\<close>

lemma getCache_unset: "c k = None \<Longrightarrow> getCache now c k = (None, c)"
  by (simp add: getCache_def)

lemma getCache_within_ttl:
  "now' - now \<le> CACHE_TTL \<Longrightarrow>
   getCache now' (setCache now c k v) k = (Some v, setCache now c k v)"
  by (simp add: getCache_def setCache_def)

lemma getCache_past_ttl:
  "now' - now > CACHE_TTL \<Longrightarrow>
   getCache now' (setCache now c k v) k = (None, c(k := None))"
  by (simp add: getCache_def setCache_def)

text \<open>
  C2. The claim has \<open>getCache\<close> miss and evict when \<open>now - timestamp\<close> is at or past the
  TTL. The source tests \<^verbatim>\<open>Date.now() - item.timestamp > this.CACHE_TTL\<close>, so an entry read
  exactly one TTL after it was set is still returned and stays in the map. (Strictly
  inside the TTL the value is returned, strictly past it the entry is evicted, and a key
  never set misses: the three lemmas above.)
\<close>

theorem getCache_at_ttl_hit:
  "getCache (1000 + CACHE_TTL) (setCache 1000 Map.empty ''companies'' ''rows'') ''companies''
   = (Some ''rows'', setCache 1000 Map.empty ''companies'' ''rows'')"
  by (simp add: getCache_def setCache_def)

section \<open>Properties of the retry wrapper\<close>

lemma failedAttempts_step:
  "i < k \<Longrightarrow> failedAttempts i k = [Invoke i, Wait (RETRY_DELAY * 2 ^ i)] @ failedAttempts (Suc i) k"
  by (simp add: failedAttempts_def upt_conv_Cons)

lemma failedAttempts_same: "failedAttempts i i = []"
  by (simp add: failedAttempts_def)

lemma retryLoop_success:
  "i \<le> k \<Longrightarrow> k < n \<Longrightarrow> (\<And>j. i \<le> j \<Longrightarrow> j < k \<Longrightarrow> isl (fn j)) \<Longrightarrow> fn k = Inr v \<Longrightarrow>
   retryLoop fn n i tr = (Resolved v, tr @ failedAttempts i k @ [Invoke k])"
proof (induction "k - i" arbitrary: i tr)
  case 0
  then have "i = k" by simp
  with 0 show ?case
    by (subst retryLoop.simps) (simp add: failedAttempts_same)
next
  case (Suc d)
  then have lt: "i < k" by simp
  then have "isl (fn i)" using Suc.prems by simp
  then obtain err where err: "fn i = Inl err" by (cases "fn i") auto
  have ne: "Suc i \<noteq> n" using lt Suc.prems by simp
  have "retryLoop fn n (Suc i) (tr @ [Invoke i, Wait (RETRY_DELAY * 2 ^ i)])
        = (Resolved v, (tr @ [Invoke i, Wait (RETRY_DELAY * 2 ^ i)]) @ failedAttempts (Suc i) k @ [Invoke k])"
    using Suc.hyps(2) Suc.prems lt by (intro Suc.hyps(1)) auto
  then show ?case
    using lt Suc.prems(2) err ne
    by (subst retryLoop.simps) (simp add: failedAttempts_step [OF lt])
qed

lemma retryLoop_exhausted:
  "i < n \<Longrightarrow> (\<And>j. i \<le> j \<Longrightarrow> j < n \<Longrightarrow> isl (fn j)) \<Longrightarrow>
   retryLoop fn n i tr =
     (Rejected (projl (fn (n - 1))), tr @ failedAttempts i (n - 1) @ [Invoke (n - 1)])"
proof (induction "n - i" arbitrary: i tr)
  case 0
  then show ?case by simp
next
  case (Suc d)
  then have "isl (fn i)" by simp
  then obtain err where err: "fn i = Inl err" by (cases "fn i") auto
  show ?case
  proof (cases "Suc i = n")
    case True
    then have "n - 1 = i" by auto
    then show ?thesis using err True
      by (subst retryLoop.simps) (simp add: failedAttempts_same)
  next
    case False
    then have lt: "Suc i < n" using Suc.prems by simp
    then have lt': "i < n - 1" by simp
    have "retryLoop fn n (Suc i) (tr @ [Invoke i, Wait (RETRY_DELAY * 2 ^ i)])
        = (Rejected (projl (fn (n - 1))),
           (tr @ [Invoke i, Wait (RETRY_DELAY * 2 ^ i)]) @ failedAttempts (Suc i) (n - 1) @ [Invoke (n - 1)])"
      using Suc.hyps(2) Suc.prems lt by (intro Suc.hyps(1)) auto
    moreover have "failedAttempts i (n - 1) =
        [Invoke i, Wait (RETRY_DELAY * 2 ^ i)] @ failedAttempts (Suc i) (n - 1)"
      by (rule failedAttempts_step [OF lt'])
    ultimately show ?thesis using err False Suc.prems(1)
      by (subst retryLoop.simps) simp
  qed
qed

lemma invocations_append: "invocations (xs @ ys) = invocations xs + invocations ys"
  by (induction xs rule: invocations.induct) auto

lemma waits_append: "waits (xs @ ys) = waits xs @ waits ys"
  by (induction xs rule: waits.induct) auto

lemma invocations_failedAttempts: "i \<le> k \<Longrightarrow> invocations (failedAttempts i k) = k - i"
  by (induction "k - i" arbitrary: i) (simp_all add: failedAttempts_same failedAttempts_step)

lemma waits_failedAttempts:
  "i \<le> k \<Longrightarrow> waits (failedAttempts i k) = map (\<lambda>j. RETRY_DELAY * 2 ^ j) [i..<k]"
  by (induction "k - i" arbitrary: i)
     (simp_all add: failedAttempts_same failedAttempts_step upt_conv_Cons)

text \<open>
  C3. With at least one attempt allowed: an operation that throws on its first \<open>k < N\<close>
  invocations and resolves to \<open>v\<close> on the next makes \<open>retryRequest\<close> resolve to \<open>v\<close> after
  exactly \<open>k + 1\<close> invocations, each failed attempt \<open>i\<close> being followed by a wait of
  \<open>RETRY_DELAY * 2 ^ i\<close> milliseconds; an operation that throws on all \<open>N\<close> invocations
  makes it reject with the error of invocation \<open>N\<close> (index \<open>N - 1\<close>), unchanged, after \<open>N\<close>
  invocations and no wait after the last one.
\<close>

theorem retryRequest_contract:
  assumes "1 \<le> N"
  shows "(k < N \<and> (\<forall>i<k. isl (fn i)) \<and> fn k = Inr v \<longrightarrow>
            retryRequest fn (Some N) = (Resolved v, failedAttempts 0 k @ [Invoke k]) \<and>
            invocations (snd (retryRequest fn (Some N))) = k + 1 \<and>
            waits (snd (retryRequest fn (Some N))) = map (\<lambda>i. RETRY_DELAY * 2 ^ i) [0..<k])
       \<and> ((\<forall>i<N. isl (fn i)) \<longrightarrow>
            retryRequest fn (Some N) =
              (Rejected (projl (fn (N - 1))), failedAttempts 0 (N - 1) @ [Invoke (N - 1)]) \<and>
            invocations (snd (retryRequest fn (Some N))) = N \<and>
            waits (snd (retryRequest fn (Some N))) = map (\<lambda>i. RETRY_DELAY * 2 ^ i) [0..<N - 1])"
proof (intro conjI impI)
  assume h: "k < N \<and> (\<forall>i<k. isl (fn i)) \<and> fn k = Inr v"
  then have r: "retryRequest fn (Some N) = (Resolved v, failedAttempts 0 k @ [Invoke k])"
    unfolding retryRequest_def using retryLoop_success [of 0 k N fn v "[]"] by simp
  show "retryRequest fn (Some N) = (Resolved v, failedAttempts 0 k @ [Invoke k])" by (rule r)
  show "invocations (snd (retryRequest fn (Some N))) = k + 1"
    by (simp add: r invocations_append invocations_failedAttempts)
  show "waits (snd (retryRequest fn (Some N))) = map (\<lambda>i. RETRY_DELAY * 2 ^ i) [0..<k]"
    by (simp add: r waits_append waits_failedAttempts)
next
  assume h: "\<forall>i<N. isl (fn i)"
  have r: "retryRequest fn (Some N) =
      (Rejected (projl (fn (N - 1))), failedAttempts 0 (N - 1) @ [Invoke (N - 1)])"
    unfolding retryRequest_def using retryLoop_exhausted [of 0 N fn "[]"] h assms by simp
  show "retryRequest fn (Some N) =
      (Rejected (projl (fn (N - 1))), failedAttempts 0 (N - 1) @ [Invoke (N - 1)])"
    by (rule r)
  show "invocations (snd (retryRequest fn (Some N))) = N"
    using assms by (simp add: r invocations_append invocations_failedAttempts)
  show "waits (snd (retryRequest fn (Some N))) = map (\<lambda>i. RETRY_DELAY * 2 ^ i) [0..<N - 1]"
    by (simp add: r waits_append waits_failedAttempts)
qed

theorem retryRequest_contract_witness:
  "retryRequest (\<lambda>i. if i < 2 then Inl (''timeout'', i) else Inr ''rows'') (Some 3)
     = (Resolved ''rows'', [Invoke 0, Wait 1000, Invoke 1, Wait 2000, Invoke 2])
   \<and> retryRequest (\<lambda>i. Inl (''timeout'', i) :: (string \<times> nat) + string) None
     = (Rejected (''timeout'', 2), [Invoke 0, Wait 1000, Invoke 1, Wait 2000, Invoke 2])"
proof -
  have n: "(1::nat) \<le> 3" by simp
  have a: "failedAttempts 0 2 = [Invoke 0, Wait 1000, Invoke 1, Wait 2000]"
    by (simp add: failedAttempts_def RETRY_DELAY_def upt_conv_Cons)
  from retryRequest_contract [OF n, of 2 "\<lambda>i. if i < 2 then Inl (''timeout'', i) else Inr ''rows''" "''rows''"]
  have 1: "retryRequest (\<lambda>i. if i < 2 then Inl (''timeout'', i) else Inr ''rows'') (Some 3)
     = (Resolved ''rows'', [Invoke 0, Wait 1000, Invoke 1, Wait 2000, Invoke 2])"
    by (simp add: a)
  from retryRequest_contract [OF n, of 0 "\<lambda>i. Inl (''timeout'', i) :: (string \<times> nat) + string" "''x''"]
  have 2: "retryRequest (\<lambda>i. Inl (''timeout'', i) :: (string \<times> nat) + string) None
     = (Rejected (''timeout'', 2), [Invoke 0, Wait 1000, Invoke 1, Wait 2000, Invoke 2])"
    by (simp add: a retryRequest_def MAX_RETRIES_def)
  from 1 2 show ?thesis by simp
qed

section \<open>Properties of validateActivity\<close>

lemma rule_in_allRules: "r \<in> set allRules"
  by (cases r) (simp_all add: allRules_def)

text \<open>
  C4. \<open>validateActivity\<close> reports every violated rule and nothing else: the rules its
  messages stand for are exactly the violated ones among unknown type, missing title
  (when the type requires one), missing date (when the type requires one), no company
  and no contact, unparsable date, each reported once and in this order; \<open>valid\<close> holds
  exactly when the list is empty, that is when no rule is violated; and an activity of a
  title-requiring type with empty title, company and contact gets at least two errors,
  the missing title and the missing link among them.
\<close>

theorem validateActivity_collects_all:
  "map ruleOf (errors (validateActivity cfg a)) = filter (violated cfg a) allRules
   \<and> (\<forall>r. length (filter (\<lambda>err. ruleOf err = r) (errors (validateActivity cfg a)))
            = (if violated cfg a r then 1 else 0))
   \<and> (valid (validateActivity cfg a) \<longleftrightarrow> errors (validateActivity cfg a) = [])
   \<and> (valid (validateActivity cfg a) \<longleftrightarrow> (\<forall>r. \<not> violated cfg a r))
   \<and> ((case getActivityType cfg (act_type a) of None \<Rightarrow> False | Some t \<Rightarrow> requiresTitle t)
        \<and> title a = [] \<and> companyId a = [] \<and> contactId a = []
        \<longrightarrow> 2 \<le> length (errors (validateActivity cfg a))
            \<and> TitleRequired \<in> set (errors (validateActivity cfg a))
            \<and> LinkRequired \<in> set (errors (validateActivity cfg a)))"
proof (intro conjI allI impI)
  show "map ruleOf (errors (validateActivity cfg a)) = filter (violated cfg a) allRules"
    by (simp add: validateActivity_def allRules_def Let_def split: option.splits)
next
  fix r
  show "length (filter (\<lambda>err. ruleOf err = r) (errors (validateActivity cfg a)))
        = (if violated cfg a r then 1 else 0)"
    by (cases r) (simp_all add: validateActivity_def Let_def split: option.splits)
next
  show "valid (validateActivity cfg a) \<longleftrightarrow> errors (validateActivity cfg a) = []"
    by (simp add: validateActivity_def Let_def)
next
  have "valid (validateActivity cfg a) \<longleftrightarrow> (\<forall>r \<in> set allRules. \<not> violated cfg a r)"
    by (simp add: validateActivity_def allRules_def Let_def split: option.splits)
  then show "valid (validateActivity cfg a) \<longleftrightarrow> (\<forall>r. \<not> violated cfg a r)"
    using rule_in_allRules by blast
next
  assume "(case getActivityType cfg (act_type a) of None \<Rightarrow> False | Some t \<Rightarrow> requiresTitle t)
        \<and> title a = [] \<and> companyId a = [] \<and> contactId a = []"
  then show "2 \<le> length (errors (validateActivity cfg a))"
    "TitleRequired \<in> set (errors (validateActivity cfg a))"
    "LinkRequired \<in> set (errors (validateActivity cfg a))"
    by (auto simp add: validateActivity_def Let_def split: option.splits)
qed

theorem validateActivity_collects_all_witness:
  "errors (validateActivity exampleConfig
      \<lparr>act_id = [], act_type = ''EMAIL'', title = [], date = [], act_notes = [], companyId = [],
       contactId = [], status = [], createdBy = [], createdAt = []\<rparr>)
     = [TitleRequired, LinkRequired]
   \<and> 2 \<le> length (errors (validateActivity exampleConfig
      \<lparr>act_id = [], act_type = ''EMAIL'', title = [], date = [], act_notes = [], companyId = [],
       contactId = [], status = [], createdBy = [], createdAt = []\<rparr>))"
  using validateActivity_collects_all [of exampleConfig
      "\<lparr>act_id = [], act_type = ''EMAIL'', title = [], date = [], act_notes = [], companyId = [],
       contactId = [], status = [], createdBy = [], createdAt = []\<rparr>"]
  by (simp add: exampleConfig_def exampleTypes_def validateActivity_def)

section \<open>Properties of sorting\<close>

lemma mset_insertBy: "mset (insertBy le x ys) = add_mset x (mset ys)"
  by (induction ys) simp_all

lemma mset_js_sort: "mset (js_sort cmp xs) = mset xs"
  unfolding js_sort_def by (induction xs) (simp_all add: mset_insertBy)

lemma set_insertBy: "set (insertBy le x ys) = insert x (set ys)"
  by (induction ys) auto

lemma sorted_wrt_insertBy:
  assumes tot: "\<And>a b. le a b \<or> le b a"
    and trans: "\<And>a b c. le a b \<Longrightarrow> le b c \<Longrightarrow> le a c"
  shows "sorted_wrt le ys \<Longrightarrow> sorted_wrt le (insertBy le x ys)"
proof (induction ys)
  case Nil
  then show ?case by simp
next
  case (Cons y ys)
  show ?case
  proof (cases "le x y")
    case True
    with Cons.prems trans show ?thesis by auto
  next
    case False
    with tot have "le y x" by blast
    with Cons False show ?thesis by (auto simp: set_insertBy)
  qed
qed

lemma sorted_wrt_js_sort:
  assumes "\<And>a b. cmp a b \<le> 0 \<or> cmp b a \<le> 0"
    and "\<And>a b c. cmp a b \<le> 0 \<Longrightarrow> cmp b c \<le> 0 \<Longrightarrow> cmp a c \<le> 0"
  shows "sorted_wrt (\<lambda>a b. cmp a b \<le> 0) (js_sort cmp xs)"
  unfolding js_sort_def
  by (induction xs) (simp_all add: sorted_wrt_insertBy [where le = "\<lambda>a b. cmp a b \<le> 0", OF assms])

lemma sorted_by_date:
  assumes "consistentCompare lc"
  shows "sorted_wrt (\<lambda>a b. lc (date a) (date b) \<le> 0) (js_sort (\<lambda>a b. lc (date a) (date b)) xs)"
  using assms unfolding consistentCompare_def
  by (intro sorted_wrt_js_sort) blast+

lemma sorted_by_date_desc:
  assumes "consistentCompare lc"
  shows "sorted_wrt (\<lambda>a b. lc (date b) (date a) \<le> 0) (js_sort (\<lambda>a b. lc (date b) (date a)) xs)"
  using assms unfolding consistentCompare_def
  by (intro sorted_wrt_js_sort) blast+

section \<open>Properties of the queries\<close>

lemma narrowBy_filter: "narrowBy x P xs = filter (\<lambda>a. demands x (\<lambda>s. P s a)) xs"
  by (simp add: narrowBy_def demands_def split: option.splits)

lemma consistent_codeUnitCompare: "consistentCompare codeUnitCompare"
  unfolding consistentCompare_def codeUnitCompare_def by auto

lemma today_is_date_prefix:
  assumes "nowIso e = d @ CHR ''T'' # rest" and "CHR ''T'' \<notin> set d"
  shows "today e = d"
proof -
  have "takeWhile (\<lambda>c. c \<noteq> CHR ''T'') (d @ CHR ''T'' # rest) = d"
    using assms(2) by (induction d) auto
  then show ?thesis by (simp add: today_def assms(1))
qed

lemma clock_has_date_prefix:
  "\<exists>d rest. nowIso e = d @ CHR ''T'' # rest \<and> CHR ''T'' \<notin> set d"
proof -
  let ?P = "\<lambda>c. c \<noteq> CHR ''T''"
  let ?s = "nowIso e"
  have "CHR ''T'' \<in> set ?s" by (simp add: nowIso_def)
  then have ne: "dropWhile ?P ?s \<noteq> []" by (auto simp add: dropWhile_eq_Nil_conv)
  then have "\<not> ?P (hd (dropWhile ?P ?s))" by (rule hd_dropWhile)
  with ne have dw: "dropWhile ?P ?s = CHR ''T'' # tl (dropWhile ?P ?s)"
    by (cases "dropWhile ?P ?s") auto
  have "?s = takeWhile ?P ?s @ dropWhile ?P ?s" by simp
  with dw have "?s = takeWhile ?P ?s @ CHR ''T'' # tl (dropWhile ?P ?s)" by simp
  moreover have "CHR ''T'' \<notin> set (takeWhile ?P ?s)"
    using set_takeWhileD by fastforce
  ultimately show ?thesis by blast
qed

text \<open>
  C5. The clock's ISO time is a date \<open>d\<close> without the letter \<^verbatim>\<open>T\<close>, then \<^verbatim>\<open>T\<close>, then the
  time, and \<open>d\<close> is the day the queries compare with, as strings. With a collation that
  orders strings consistently, \<open>getUpcomingActivities\<close> returns exactly the loaded
  activities whose status is \<open>planned\<close> and whose date is at or after \<open>d\<close> (so an activity
  dated on the clock's day is upcoming whatever its time), narrowed to the given company
  and contact when these arguments are given, in ascending order of date;
  \<open>getOverdueActivities\<close> returns exactly the planned activities with a date before \<open>d\<close>,
  in ascending order of date (oldest first).
\<close>

theorem upcoming_overdue_queries:
  assumes "consistentCompare (localeCompare cfg)"
  shows "(\<exists>d rest. nowIso e = d @ CHR ''T'' # rest \<and> CHR ''T'' \<notin> set d)
       \<and> (\<forall>d rest. nowIso e = d @ CHR ''T'' # rest \<and> CHR ''T'' \<notin> set d \<longrightarrow>
            mset (getUpcomingActivities cfg e acts cid pid)
              = mset (filter (\<lambda>a. status a = PLANNED \<and> d \<le> date a
                                 \<and> demands cid (\<lambda>s. companyId a = s)
                                 \<and> demands pid (\<lambda>s. contactId a = s)) acts)
            \<and> mset (getOverdueActivities cfg e acts)
              = mset (filter (\<lambda>a. status a = PLANNED \<and> date a < d) acts))
       \<and> sorted_wrt (\<lambda>a b. localeCompare cfg (date a) (date b) \<le> 0)
            (getUpcomingActivities cfg e acts cid pid)
       \<and> sorted_wrt (\<lambda>a b. localeCompare cfg (date a) (date b) \<le> 0)
            (getOverdueActivities cfg e acts)"
proof (intro conjI allI impI)
  show "\<exists>d rest. nowIso e = d @ CHR ''T'' # rest \<and> CHR ''T'' \<notin> set d"
    by (rule clock_has_date_prefix)
next
  fix d rest
  assume "nowIso e = d @ CHR ''T'' # rest \<and> CHR ''T'' \<notin> set d"
  then have t: "today e = d" using today_is_date_prefix by blast
  show "mset (getUpcomingActivities cfg e acts cid pid)
           = mset (filter (\<lambda>a. status a = PLANNED \<and> d \<le> date a
                              \<and> demands cid (\<lambda>s. companyId a = s)
                              \<and> demands pid (\<lambda>s. contactId a = s)) acts)"
    by (simp add: getUpcomingActivities_def Let_def mset_js_sort narrowBy_filter t
        conj_commute conj_left_commute)
  show "mset (getOverdueActivities cfg e acts)
           = mset (filter (\<lambda>a. status a = PLANNED \<and> date a < d) acts)"
    by (simp add: getOverdueActivities_def Let_def mset_js_sort t)
next
  show "sorted_wrt (\<lambda>a b. localeCompare cfg (date a) (date b) \<le> 0)
            (getUpcomingActivities cfg e acts cid pid)"
    unfolding getUpcomingActivities_def Let_def by (rule sorted_by_date [OF assms])
  show "sorted_wrt (\<lambda>a b. localeCompare cfg (date a) (date b) \<le> 0)
            (getOverdueActivities cfg e acts)"
    unfolding getOverdueActivities_def Let_def by (rule sorted_by_date [OF assms])
qed

theorem upcoming_overdue_queries_witness:
  "consistentCompare (localeCompare exampleConfig)
   \<and> nowIso exampleEnv = ''2024-06-15'' @ CHR ''T'' # ''10:00:00.000Z''
   \<and> CHR ''T'' \<notin> set ''2024-06-15''
   \<and> mset (getUpcomingActivities exampleConfig exampleEnv (loadActivities clockDayRows) None None)
       = mset (filter (\<lambda>a. status a = PLANNED \<and> ''2024-06-15'' \<le> date a
                          \<and> demands None (\<lambda>s. companyId a = s)
                          \<and> demands None (\<lambda>s. contactId a = s)) (loadActivities clockDayRows))
   \<and> map act_id (getUpcomingActivities exampleConfig exampleEnv (loadActivities clockDayRows) None None)
       = [''d5'', ''d3'', ''d1'', ''d4'']
   \<and> map act_id (getUpcomingActivities exampleConfig exampleEnv (loadActivities clockDayRows)
        (Some ''c1'') None) = [''d5'', ''d1'', ''d4'']
   \<and> map act_id (getOverdueActivities exampleConfig exampleEnv (loadActivities clockDayRows))
       = [''d2'']
   \<and> map act_id (getOverdueActivities exampleConfig exampleEnv (loadActivities exampleRows))
       = [''a3'']
   \<and> sorted_wrt (\<lambda>a b. localeCompare exampleConfig (date a) (date b) \<le> 0)
        (getUpcomingActivities exampleConfig exampleEnv (loadActivities clockDayRows) None None)"
proof -
  have c: "consistentCompare (localeCompare exampleConfig)"
    by (simp add: exampleConfig_def consistent_codeUnitCompare)
  have n: "nowIso exampleEnv = ''2024-06-15'' @ CHR ''T'' # ''10:00:00.000Z''"
    "CHR ''T'' \<notin> set ''2024-06-15''"
    by (simp_all add: nowIso_def exampleEnv_def)
  have ev:
    "map act_id (getUpcomingActivities exampleConfig exampleEnv (loadActivities clockDayRows) None None)
       = [''d5'', ''d3'', ''d1'', ''d4'']"
    "map act_id (getUpcomingActivities exampleConfig exampleEnv (loadActivities clockDayRows)
        (Some ''c1'') None) = [''d5'', ''d1'', ''d4'']"
    "map act_id (getOverdueActivities exampleConfig exampleEnv (loadActivities clockDayRows))
       = [''d2'']"
    "map act_id (getOverdueActivities exampleConfig exampleEnv (loadActivities exampleRows))
       = [''a3'']"
    by (simp_all add: getUpcomingActivities_def getOverdueActivities_def narrowBy_def js_sort_def
        exampleConfig_def codeUnitCompare_def exampleEnv_def nowIso_def today_def PLANNED_def
        loadActivities_def clockDayRows_def exampleRows_def toActivity_def cell_def orElse_def)
  note t = upcoming_overdue_queries [OF c, of exampleEnv "loadActivities clockDayRows" None None]
  from t n have m:
    "mset (getUpcomingActivities exampleConfig exampleEnv (loadActivities clockDayRows) None None)
       = mset (filter (\<lambda>a. status a = PLANNED \<and> ''2024-06-15'' \<le> date a
                          \<and> demands None (\<lambda>s. companyId a = s)
                          \<and> demands None (\<lambda>s. contactId a = s)) (loadActivities clockDayRows))"
    by blast
  from t have s: "sorted_wrt (\<lambda>a b. localeCompare exampleConfig (date a) (date b) \<le> 0)
        (getUpcomingActivities exampleConfig exampleEnv (loadActivities clockDayRows) None None)"
    by blast
  from c n m ev s show ?thesis by blast
qed

text \<open>
  C6. With a collation that orders strings consistently, \<open>applyFilters\<close> returns exactly
  the activities that satisfy every filter that is present (a field that is absent or
  empty demands nothing): the type equal to the type filter, the status equal to the
  status filter, the date at or after \<open>dateFrom\<close> and at or before \<open>dateTo\<close> as strings;
  and the result is in descending order of date (newest first).
\<close>

theorem applyFilters_exact:
  assumes "consistentCompare (localeCompare cfg)"
  shows "mset (applyFilters cfg acts fs)
           = mset (filter (\<lambda>a. demands (f_type fs) (\<lambda>s. act_type a = s)
                              \<and> demands (f_status fs) (\<lambda>s. status a = s)
                              \<and> demands (dateFrom fs) (\<lambda>s. s \<le> date a)
                              \<and> demands (dateTo fs) (\<lambda>s. date a \<le> s)) acts)
       \<and> sorted_wrt (\<lambda>a b. localeCompare cfg (date b) (date a) \<le> 0) (applyFilters cfg acts fs)"
proof
  show "mset (applyFilters cfg acts fs)
           = mset (filter (\<lambda>a. demands (f_type fs) (\<lambda>s. act_type a = s)
                              \<and> demands (f_status fs) (\<lambda>s. status a = s)
                              \<and> demands (dateFrom fs) (\<lambda>s. s \<le> date a)
                              \<and> demands (dateTo fs) (\<lambda>s. date a \<le> s)) acts)"
    by (simp add: applyFilters_def Let_def mset_js_sort narrowBy_filter conj_commute conj_left_commute)
  show "sorted_wrt (\<lambda>a b. localeCompare cfg (date b) (date a) \<le> 0) (applyFilters cfg acts fs)"
    unfolding applyFilters_def Let_def by (rule sorted_by_date_desc [OF assms])
qed

theorem applyFilters_exact_witness:
  "consistentCompare (localeCompare exampleConfig)
   \<and> map act_id (applyFilters exampleConfig (loadActivities exampleRows)
        \<lparr>f_type = None, f_status = Some ''planned'', dateFrom = Some ''2024-06-01'',
         dateTo = Some ''2024-06-19''\<rparr>) = [''a4'', ''a3'']
   \<and> map act_id (applyFilters exampleConfig (loadActivities exampleRows)
        \<lparr>f_type = None, f_status = None, dateFrom = None, dateTo = None\<rparr>)
       = [''a1'', ''a4'', ''a3'', ''a2'']
   \<and> sorted_wrt (\<lambda>a b. localeCompare exampleConfig (date b) (date a) \<le> 0)
        (applyFilters exampleConfig (loadActivities exampleRows)
          \<lparr>f_type = None, f_status = Some ''planned'', dateFrom = Some ''2024-06-01'',
           dateTo = Some ''2024-06-19''\<rparr>)"
proof -
  have c: "consistentCompare (localeCompare exampleConfig)"
    by (simp add: exampleConfig_def consistent_codeUnitCompare)
  have ev:
    "map act_id (applyFilters exampleConfig (loadActivities exampleRows)
        \<lparr>f_type = None, f_status = Some ''planned'', dateFrom = Some ''2024-06-01'',
         dateTo = Some ''2024-06-19''\<rparr>) = [''a4'', ''a3'']"
    "map act_id (applyFilters exampleConfig (loadActivities exampleRows)
        \<lparr>f_type = None, f_status = None, dateFrom = None, dateTo = None\<rparr>)
       = [''a1'', ''a4'', ''a3'', ''a2'']"
    by (simp_all add: applyFilters_def narrowBy_def js_sort_def
        exampleConfig_def codeUnitCompare_def
        loadActivities_def exampleRows_def toActivity_def cell_def orElse_def)
  from applyFilters_exact [OF c, of "loadActivities exampleRows"
      "\<lparr>f_type = None, f_status = Some ''planned'', dateFrom = Some ''2024-06-01'',
         dateTo = Some ''2024-06-19''\<rparr>"]
  have "sorted_wrt (\<lambda>a b. localeCompare exampleConfig (date b) (date a) \<le> 0)
        (applyFilters exampleConfig (loadActivities exampleRows)
          \<lparr>f_type = None, f_status = Some ''planned'', dateFrom = Some ''2024-06-01'',
           dateTo = Some ''2024-06-19''\<rparr>)"
    by blast
  with c ev show ?thesis by blast
qed

section \<open>Properties of getActivityStats\<close>

lemma map_of_setKey: "map_of (setKey k v m) = (map_of m)(k \<mapsto> v)"
  by (induction m) (auto simp: fun_eq_iff)

lemma proto_member: "''__proto__'' \<in> set prototypeMembers"
  by (simp add: prototypeMembers_def)

lemma countSum_new: "map_of m t = None \<Longrightarrow> countSum (setKey t (Count c) m) = countSum m + c"
  by (induction m rule: countSum.induct) (auto split: if_splits)

lemma countSum_bump:
  "map_of m t = Some (Count n) \<Longrightarrow> countSum (setKey t (Count (Suc n)) m) = Suc (countSum m)"
  by (induction m rule: countSum.induct) (auto split: if_splits)

lemma allCounts_setKey: "allCounts m \<Longrightarrow> allCounts (setKey t (Count c) m)"
  by (induction m rule: allCounts.induct) auto

lemma allCounts_lookup: "allCounts m \<Longrightarrow> map_of m t = Some v \<Longrightarrow> \<exists>n. v = Count n"
  by (induction m rule: allCounts.induct) (auto split: if_splits)

lemma countType_plain:
  assumes "t \<notin> set prototypeMembers" and "allCounts m"
  shows "countSum (countType mt t m) = Suc (countSum m) \<and> allCounts (countType mt t m)"
proof -
  from assms(1) have np: "t \<noteq> ''__proto__''" using proto_member by auto
  show ?thesis
  proof (cases "map_of m t")
    case None
    with assms np show ?thesis
      by (simp add: countType_def getProp_def setProp_def countSum_new allCounts_setKey)
  next
    case (Some v)
    with allCounts_lookup [OF assms(2) Some] obtain n where "map_of m t = Some (Count n)" by auto
    with assms np show ?thesis
      by (simp add: countType_def getProp_def setProp_def countSum_bump allCounts_setKey)
  qed
qed

lemma countStatus_known:
  assumes "map_of m k = Some (Tally n)" and "k \<noteq> ''__proto__''"
  shows "map_of (countStatus s m) k = Some (Tally (n + (if s = k then 1 else 0)))"
proof (cases "s = k")
  case True
  with assms show ?thesis
    by (simp add: countStatus_def getProp_def setProp_def map_of_setKey)
next
  case False
  with assms show ?thesis
    by (cases "getProp m s"; cases "s = ''__proto__''")
       (auto simp add: countStatus_def setProp_def map_of_setKey split: statusCount.splits)
qed


lemma foldl_total: "total_count (foldl (statsStep mt t) st xs) = total_count st"
  by (induction xs arbitrary: st) (simp_all add: statsStep_def Let_def)

lemma foldl_upcoming:
  "upcoming (foldl (statsStep mt t) st xs)
     = upcoming st + length (filter (\<lambda>a. status a = PLANNED \<and> t \<le> date a) xs)"
  by (induction xs arbitrary: st) (simp_all add: statsStep_def Let_def)

lemma foldl_overdue:
  "overdue (foldl (statsStep mt t) st xs)
     = overdue st + length (filter (\<lambda>a. status a = PLANNED \<and> date a < t) xs)"
  by (induction xs arbitrary: st) (auto simp add: statsStep_def Let_def)

lemma split_planned:
  "length (filter (\<lambda>a. status a = PLANNED \<and> t \<le> date a) xs)
   + length (filter (\<lambda>a. status a = PLANNED \<and> date a < t) xs)
   = length (filter (\<lambda>a. status a = PLANNED) xs)"
  by (induction xs) auto

lemma byStatus_step: "byStatus (statsStep mt t st a) = countStatus (status a) (byStatus st)"
  by (simp add: statsStep_def Let_def)

lemma byType_step: "byType (statsStep mt t st a) = countType mt (act_type a) (byType st)"
  by (simp add: statsStep_def Let_def)

lemma foldl_byStatus_known:
  "map_of (byStatus st) k = Some (Tally n) \<Longrightarrow> k \<noteq> ''__proto__'' \<Longrightarrow>
   map_of (byStatus (foldl (statsStep mt t) st xs)) k
     = Some (Tally (n + length (filter (\<lambda>a. status a = k) xs)))"
proof (induction xs arbitrary: st n)
  case Nil
  then show ?case by simp
next
  case (Cons a xs)
  have "map_of (byStatus (statsStep mt t st a)) k
      = Some (Tally (n + (if status a = k then 1 else 0)))"
    using Cons.prems by (simp add: byStatus_step countStatus_known)
  from Cons.IH [OF this Cons.prems(2)] show ?case by simp
qed

lemma foldl_byType_plain:
  "allCounts (byType st) \<Longrightarrow> (\<And>a. a \<in> set xs \<Longrightarrow> act_type a \<notin> set prototypeMembers) \<Longrightarrow>
   countSum (byType (foldl (statsStep mt t) st xs)) = countSum (byType st) + length xs
   \<and> allCounts (byType (foldl (statsStep mt t) st xs))"
proof (induction xs arbitrary: st)
  case Nil
  then show ?case by simp
next
  case (Cons a xs)
  have np: "act_type a \<notin> set prototypeMembers" using Cons.prems(2) by simp
  from countType_plain [OF np Cons.prems(1), of mt]
  have step: "countSum (byType (statsStep mt t st a)) = Suc (countSum (byType st))"
    "allCounts (byType (statsStep mt t st a))"
    by (simp_all add: byType_step)
  from Cons.IH [OF step(2)] Cons.prems(2) step(1) show ?case by simp
qed

text \<open>
  What holds of the statistics for every activity list and narrowing: \<open>total\<close> is the
  number of activities left by the narrowing, the three known statuses are counted
  exactly, and \<open>upcoming + overdue\<close> is the count of planned activities. The counts in
  \<open>byType\<close> are numbers that add up to \<open>total\<close> when no type is the name of a member of
  \<^verbatim>\<open>Object.prototype\<close>.
\<close>

lemma stats_invariants:
  "(let narrowed = filter (\<lambda>a. demands cid (\<lambda>s. companyId a = s)
                              \<and> demands pid (\<lambda>s. contactId a = s)) acts;
        st = getActivityStats mt e acts cid pid
    in total_count st = length narrowed
       \<and> map_of (byStatus st) PLANNED
           = Some (Tally (length (filter (\<lambda>a. status a = PLANNED) narrowed)))
       \<and> map_of (byStatus st) COMPLETED
           = Some (Tally (length (filter (\<lambda>a. status a = COMPLETED) narrowed)))
       \<and> map_of (byStatus st) CANCELLED
           = Some (Tally (length (filter (\<lambda>a. status a = CANCELLED) narrowed)))
       \<and> upcoming st + overdue st = length (filter (\<lambda>a. status a = PLANNED) narrowed)
       \<and> ((\<forall>a \<in> set narrowed. act_type a \<notin> set prototypeMembers) \<longrightarrow>
            allCounts (byType st) \<and> countSum (byType st) = total_count st))"
proof -
  define narrowed where
    "narrowed = filter (\<lambda>a. demands cid (\<lambda>s. companyId a = s) \<and> demands pid (\<lambda>s. contactId a = s)) acts"
  define stats0 where
    "stats0 = \<lparr>total_count = length narrowed, byType = [],
               byStatus = [(''planned'', Tally 0), (''completed'', Tally 0), (''cancelled'', Tally 0)],
               upcoming = 0, overdue = 0\<rparr>"
  define st where "st = getActivityStats mt e acts cid pid"
  have n: "narrowBy pid (\<lambda>s a. contactId a = s) (narrowBy cid (\<lambda>s a. companyId a = s) acts) = narrowed"
    by (simp add: narrowBy_filter narrowed_def conj_commute)
  have st: "st = foldl (statsStep mt (today e)) stats0 narrowed"
    by (simp add: st_def getActivityStats_def Let_def n stats0_def)
  have 1: "total_count st = length narrowed"
    by (simp add: st foldl_total stats0_def)
  have 4: "map_of (byStatus st) PLANNED
           = Some (Tally (length (filter (\<lambda>a. status a = PLANNED) narrowed)))"
    unfolding st by (subst foldl_byStatus_known [where n = 0]) (simp_all add: stats0_def PLANNED_def)
  have 5: "map_of (byStatus st) COMPLETED
           = Some (Tally (length (filter (\<lambda>a. status a = COMPLETED) narrowed)))"
    unfolding st by (subst foldl_byStatus_known [where n = 0]) (simp_all add: stats0_def COMPLETED_def)
  have 6: "map_of (byStatus st) CANCELLED
           = Some (Tally (length (filter (\<lambda>a. status a = CANCELLED) narrowed)))"
    unfolding st by (subst foldl_byStatus_known [where n = 0]) (simp_all add: stats0_def CANCELLED_def)
  have 9: "upcoming st + overdue st = length (filter (\<lambda>a. status a = PLANNED) narrowed)"
    by (simp add: st foldl_upcoming foldl_overdue stats0_def split_planned)
  have 10: "allCounts (byType st) \<and> countSum (byType st) = total_count st"
    if "\<forall>a \<in> set narrowed. act_type a \<notin> set prototypeMembers"
  proof -
    have "allCounts (byType stats0)" by (simp add: stats0_def)
    from foldl_byType_plain [OF this, of narrowed mt "today e"] that
    have "countSum (byType st) = length narrowed \<and> allCounts (byType st)"
      by (simp add: st stats0_def)
    with 1 show ?thesis by simp
  qed
  from 1 4 5 6 9 10 show ?thesis
    unfolding Let_def narrowed_def [symmetric] st_def [symmetric] by blast
qed

text \<open>
  C10. The claim has the counts in \<open>byType\<close> add up to \<open>total\<close> for every activity list.
  \<^verbatim>\<open>stats.byType[activity.type]\<close> reads through the prototype chain: for the type
  \<^verbatim>\<open>__proto__\<close> nothing is stored, and for the type \<^verbatim>\<open>toString\<close> the inherited function is
  read and a text is stored. Of three activities one is counted. (The status
  \<^verbatim>\<open>constructor\<close> likewise adds a fourth key to \<open>byStatus\<close>; the three known counts and
  \<open>upcoming + overdue\<close> stay right.)
\<close>

theorem byType_reads_inherited_names:
  "getActivityStats exampleMemberText exampleEnv (loadActivities inheritedNameRows) None None
     = \<lparr>total_count = 3,
        byType = [(''toString'', Text ''function toString() { [native code] }1''),
                  (''TASK'', Count 1)],
        byStatus = [(''planned'', Tally 2), (''completed'', Tally 0), (''cancelled'', Tally 0),
                    (''constructor'', NaN)],
        upcoming = 1, overdue = 1\<rparr>
   \<and> countSum (byType (getActivityStats exampleMemberText exampleEnv
        (loadActivities inheritedNameRows) None None)) = 1"
proof -
  have l: "loadActivities inheritedNameRows =
      [\<lparr>act_id = ''b1'', act_type = ''__proto__'', title = ''First'',
        date = ''2024-06-20T09:00:00.000Z'', act_notes = [], companyId = ''c1'', contactId = [],
        status = ''planned'', createdBy = [], createdAt = []\<rparr>,
       \<lparr>act_id = ''b2'', act_type = ''toString'', title = ''Second'',
        date = ''2024-06-21T09:00:00.000Z'', act_notes = [], companyId = ''c1'', contactId = [],
        status = ''constructor'', createdBy = [], createdAt = []\<rparr>,
       \<lparr>act_id = ''b3'', act_type = ''TASK'', title = ''Third'',
        date = ''2024-06-01T09:00:00.000Z'', act_notes = [], companyId = ''c1'', contactId = [],
        status = ''planned'', createdBy = [], createdAt = []\<rparr>]"
    by (simp add: loadActivities_def inheritedNameRows_def toActivity_def cell_def orElse_def)
  have g: "getActivityStats exampleMemberText exampleEnv (loadActivities inheritedNameRows) None None
     = \<lparr>total_count = 3,
        byType = [(''toString'', Text ''function toString() { [native code] }1''),
                  (''TASK'', Count 1)],
        byStatus = [(''planned'', Tally 2), (''completed'', Tally 0), (''cancelled'', Tally 0),
                    (''constructor'', NaN)],
        upcoming = 1, overdue = 1\<rparr>"
    unfolding l
    by (simp add: getActivityStats_def statsStep_def countType_def countStatus_def narrowBy_def
        getProp_def setProp_def prototypeMembers_def exampleMemberText_def
        exampleEnv_def nowIso_def today_def PLANNED_def)
  show ?thesis unfolding g by simp
qed

section \<open>Properties of loadCustomFieldDefinitions\<close>

lemma lowerChar_letters:
  "lowerChar c = CHR ''t'' \<longleftrightarrow> c = CHR ''t'' \<or> c = upperOf CHR ''t''"
  "lowerChar c = CHR ''r'' \<longleftrightarrow> c = CHR ''r'' \<or> c = upperOf CHR ''r''"
  "lowerChar c = CHR ''u'' \<longleftrightarrow> c = CHR ''u'' \<or> c = upperOf CHR ''u''"
  "lowerChar c = CHR ''e'' \<longleftrightarrow> c = CHR ''e'' \<or> c = upperOf CHR ''e''"
  "lowerChar c = CHR ''y'' \<longleftrightarrow> c = CHR ''y'' \<or> c = upperOf CHR ''y''"
  "lowerChar c = CHR ''s'' \<longleftrightarrow> c = CHR ''s'' \<or> c = upperOf CHR ''s''"
  "lowerChar c = CHR ''1'' \<longleftrightarrow> c = CHR ''1'' \<or> c = upperOf CHR ''1''"
  by (auto simp add: lowerChar_def upperOf_def split: if_splits)

lemma toLowerCase_literals:
  "toLowerCase s = ''true'' \<longleftrightarrow> equalsIgnoringCase s ''true''"
  "toLowerCase s = ''1'' \<longleftrightarrow> equalsIgnoringCase s ''1''"
  "toLowerCase s = ''yes'' \<longleftrightarrow> equalsIgnoringCase s ''yes''"
  unfolding toLowerCase_def equalsIgnoringCase_def
  by (auto simp add: list_all2_Cons2 map_eq_Cons_conv lowerChar_letters)

lemma toLowerCase_empty: "toLowerCase s = [] \<longleftrightarrow> s = []"
  by (simp add: toLowerCase_def)

lemma decodesTrue_empty: "\<not> decodesTrue []"
  by (simp add: decodesTrue_def equalsIgnoringCase_def)


lemma orElse_empty: "orElse x [] = x"
  by (simp add: orElse_def)

lemma loaded_definition_is_decoded_row:
  "d \<in> set (loadCustomFieldDefinitions N g rows) \<Longrightarrow>
   \<exists>idx < length rows. d = toDefinition N g idx (rows ! idx)"
  by (auto simp add: loadCustomFieldDefinitions_def in_set_enumerate_eq)

text \<open>
  The claim C7 has every boolean-like column decode to false on a missing or empty cell.
  For \<open>enabled\<close> the source tests \<^verbatim>\<open>enabledRaw === '' ? true : ...\<close> first: a row without an
  \<open>enabled\<close> cell, or with an empty one, is an enabled definition.
\<close>

theorem enabled_missing_cell_is_true:
  "cell [''f1'', ''company'', ''budget'', ''Budget'', ''number''] 7 = []
   \<and> enabled (toDefinition exampleNumber (\<lambda>i. ''id_1'') 0
        [''f1'', ''company'', ''budget'', ''Budget'', ''number''])
   \<and> cell [''f1'', ''company'', ''budget'', ''Budget'', ''number'', [], ''no'', []] 7 = []
   \<and> enabled (toDefinition exampleNumber (\<lambda>i. ''id_1'') 0
        [''f1'', ''company'', ''budget'', ''Budget'', ''number'', [], ''no'', []])"
  by (simp add: toDefinition_def cell_def orElse_def toLowerCase_def)

text \<open>
  C7, as the code has it. For every row of the definitions sheet: \<open>required\<close> is true
  exactly when its cell is one of \<^verbatim>\<open>true\<close>, \<^verbatim>\<open>1\<close>, \<^verbatim>\<open>yes\<close> without regard to case, and so
  false on a missing or empty cell; \<open>enabled\<close> is true exactly when its cell is missing or
  empty or one of these literals, and false for every other value; \<open>order\<close> is \<open>0\<close>
  whenever \<^verbatim>\<open>Number\<close> of its cell is not finite, and that number otherwise. Every
  definition that \<open>loadCustomFieldDefinitions\<close> returns is such a decoded row.
\<close>

theorem toDefinition_decoding:
  "(required (toDefinition N g idx r) \<longleftrightarrow> decodesTrue (cell r 6))
   \<and> (cell r 6 = [] \<longrightarrow> \<not> required (toDefinition N g idx r))
   \<and> (enabled (toDefinition N g idx r) \<longleftrightarrow> cell r 7 = [] \<or> decodesTrue (cell r 7))
   \<and> (N (cellOpt r 8) = NotFinite \<longrightarrow> order_no (toDefinition N g idx r) = Some 0)
   \<and> (\<forall>q. N (cellOpt r 8) = Finite q \<longrightarrow> order_no (toDefinition N g idx r) = Some q)
   \<and> (\<forall>d \<in> set (loadCustomFieldDefinitions N g rows).
         \<exists>i < length rows. d = toDefinition N g i (rows ! i))"
proof (intro conjI)
  show req: "required (toDefinition N g idx r) \<longleftrightarrow> decodesTrue (cell r 6)"
    by (simp add: toDefinition_def Let_def orElse_empty decodesTrue_def toLowerCase_literals)
  show "cell r 6 = [] \<longrightarrow> \<not> required (toDefinition N g idx r)"
    by (simp add: req decodesTrue_empty)
  show "enabled (toDefinition N g idx r) \<longleftrightarrow> cell r 7 = [] \<or> decodesTrue (cell r 7)"
    by (simp add: toDefinition_def Let_def orElse_empty decodesTrue_def toLowerCase_literals
        toLowerCase_empty)
  show "N (cellOpt r 8) = NotFinite \<longrightarrow> order_no (toDefinition N g idx r) = Some 0"
    by (simp add: toDefinition_def Let_def)
  show "\<forall>q. N (cellOpt r 8) = Finite q \<longrightarrow> order_no (toDefinition N g idx r) = Some q"
    by (simp add: toDefinition_def Let_def)
  show "\<forall>d \<in> set (loadCustomFieldDefinitions N g rows).
         \<exists>i < length rows. d = toDefinition N g i (rows ! i)"
    using loaded_definition_is_decoded_row by blast
qed

theorem toDefinition_decoding_witness:
  "decodesTrue ''Yes'' \<and> decodesTrue ''TRUE'' \<and> exampleNumber (Some ''abc'') = NotFinite
   \<and> required (toDefinition exampleNumber (\<lambda>i. ''id_1'') 0
        [''f2'', ''contact'', ''vip'', ''VIP'', ''checkbox'', [], ''Yes'', ''TRUE'', ''abc''])
   \<and> enabled (toDefinition exampleNumber (\<lambda>i. ''id_1'') 0
        [''f2'', ''contact'', ''vip'', ''VIP'', ''checkbox'', [], ''Yes'', ''TRUE'', ''abc''])
   \<and> order_no (toDefinition exampleNumber (\<lambda>i. ''id_1'') 0
        [''f2'', ''contact'', ''vip'', ''VIP'', ''checkbox'', [], ''Yes'', ''TRUE'', ''abc''])
      = Some 0
   \<and> \<not> enabled (toDefinition exampleNumber (\<lambda>i. ''id_1'') 0
        [''f3'', ''company'', ''old'', ''Old'', ''text'', [], ''0'', ''FALSE'', ''2''])
   \<and> map key (loadCustomFieldDefinitions exampleNumber (\<lambda>i. ''id_1'')
        [[''f2'', ''contact'', ''vip'', ''VIP'', ''checkbox'', [], ''Yes'', ''TRUE'', ''abc''],
         [''f4'', ''contact'', [], ''No key'']]) = [''vip'']"
proof -
  let ?r = "[''f2'', ''contact'', ''vip'', ''VIP'', ''checkbox'', [], ''Yes'', ''TRUE'', ''abc'']"
  let ?r' = "[''f3'', ''company'', ''old'', ''Old'', ''text'', [], ''0'', ''FALSE'', ''2'']"
  have lits: "decodesTrue ''Yes''" "decodesTrue ''TRUE''" "\<not> decodesTrue ''FALSE''"
    by (simp_all add: decodesTrue_def equalsIgnoringCase_def upperOf_def)
  have cells: "cell ?r 6 = ''Yes''" "cell ?r 7 = ''TRUE''" "cell ?r' 7 = ''FALSE''"
    by (simp_all add: cell_def)
  have num: "exampleNumber (Some ''abc'') = NotFinite" "exampleNumber (cellOpt ?r 8) = NotFinite"
    by (simp_all add: cellOpt_def exampleNumber_def)
  have loaded: "map key (loadCustomFieldDefinitions exampleNumber (\<lambda>i. ''id_1'')
        [?r, [''f4'', ''contact'', [], ''No key'']]) = [''vip'']"
    by (simp add: loadCustomFieldDefinitions_def toDefinition_def Let_def cell_def orElse_def)
  note t = toDefinition_decoding [of exampleNumber "\<lambda>i. ''id_1''" 0 ?r "[]"]
  note t' = toDefinition_decoding [of exampleNumber "\<lambda>i. ''id_1''" 0 ?r' "[]"]
  from t have "required (toDefinition exampleNumber (\<lambda>i. ''id_1'') 0 ?r) \<longleftrightarrow> decodesTrue (cell ?r 6)"
    by (rule conjunct1)
  then have 1: "required (toDefinition exampleNumber (\<lambda>i. ''id_1'') 0 ?r)"
    by (simp only: cells lits)
  from t have "enabled (toDefinition exampleNumber (\<lambda>i. ''id_1'') 0 ?r)
      \<longleftrightarrow> cell ?r 7 = [] \<or> decodesTrue (cell ?r 7)"
    by blast
  then have 2: "enabled (toDefinition exampleNumber (\<lambda>i. ''id_1'') 0 ?r)"
    by (simp only: cells lits) simp
  from t have "exampleNumber (cellOpt ?r 8) = NotFinite
      \<longrightarrow> order_no (toDefinition exampleNumber (\<lambda>i. ''id_1'') 0 ?r) = Some 0"
    by blast
  with num have 3: "order_no (toDefinition exampleNumber (\<lambda>i. ''id_1'') 0 ?r) = Some 0"
    by blast
  from t' have "enabled (toDefinition exampleNumber (\<lambda>i. ''id_1'') 0 ?r')
      \<longleftrightarrow> cell ?r' 7 = [] \<or> decodesTrue (cell ?r' 7)"
    by blast
  then have 4: "\<not> enabled (toDefinition exampleNumber (\<lambda>i. ''id_1'') 0 ?r')"
    by (simp only: cells lits) simp
  from lits num 1 2 3 4 loaded show ?thesis by blast
qed

section \<open>Properties of CustomFieldsUI\<close>

lemma set_js_sort: "set (js_sort cmp xs) = set xs"
  using mset_js_sort [of cmp xs] by (metis set_mset_mset)

lemma concat_buildField1:
  "(\<And>d. d \<in> set ds \<Longrightarrow> enabled d) \<Longrightarrow>
   concat (map (\<lambda>d. buildField1 d (vals (key d)) p) ds) = map (\<lambda>d. renderField d (vals (key d)) p) ds"
  by (induction ds) (simp_all add: buildField1_def)

lemma mount1_exact:
  "mount1 True defs vals p
     = Some (map (\<lambda>d. renderField d (vals (key d)) p) (js_sort orderCompare (filter enabled defs)))"
proof -
  have "\<And>d. d \<in> set (js_sort orderCompare (filter enabled defs)) \<Longrightarrow> enabled d"
    by (simp add: set_js_sort)
  then show ?thesis
    by (simp add: mount1_def Let_def concat_buildField1)
qed

lemma sorted_by_order: "sorted_wrt (\<lambda>a b. orderCompare a b \<le> 0) (js_sort orderCompare ds)"
proof (rule sorted_wrt_js_sort)
  fix a b :: fieldDef
  show "orderCompare a b \<le> 0 \<or> orderCompare b a \<le> 0"
    unfolding orderCompare_def by linarith
next
  fix a b c :: fieldDef
  assume "orderCompare a b \<le> 0" "orderCompare b c \<le> 0"
  then show "orderCompare a c \<le> 0"
    unfolding orderCompare_def by linarith
qed

lemma keys_after_setKey: "fst ` set (setKey k v m) = insert k (fst ` set m)"
proof -
  have "fst ` set (setKey k v m) = dom (map_of (setKey k v m))"
    by (simp add: dom_map_of_conv_image_fst)
  also have "\<dots> = insert k (dom (map_of m))"
    by (simp add: map_of_setKey)
  finally show ?thesis
    by (simp add: dom_map_of_conv_image_fst)
qed

lemma collectStep1_key':
  assumes "k \<in> fst ` set (collectStep1 N c p acc d)"
  shows "k \<in> fst ` set acc \<or> (enabled d \<and> key d = k)"
proof (cases "enabled d")
  case False
  with assms show ?thesis by (simp add: collectStep1_def)
next
  case True
  with assms show ?thesis
    by (cases "c (p @ safeId (key d))") (auto simp add: collectStep1_def keys_after_setKey)
qed

lemma collectStep1_keys:
  "k \<in> fst ` set (foldl (collectStep1 N c p) acc ds) \<Longrightarrow>
   k \<in> fst ` set acc \<or> (\<exists>d \<in> set ds. enabled d \<and> key d = k)"
proof (induction ds arbitrary: acc)
  case Nil
  then show ?case by simp
next
  case (Cons d ds)
  from Cons.prems have "k \<in> fst ` set (foldl (collectStep1 N c p) (collectStep1 N c p acc d) ds)"
    by simp
  from Cons.IH [OF this]
  consider "k \<in> fst ` set (collectStep1 N c p acc d)" | "\<exists>x \<in> set ds. enabled x \<and> key x = k"
    by blast
  then show ?case
  proof cases
    case 1
    from collectStep1_key' [OF this] show ?thesis by auto
  next
    case 2
    then show ?thesis by auto
  qed
qed

text \<open>
  The first variant does what the specification says: \<open>mount\<close> renders one control per
  enabled definition, in ascending order of \<open>order\<close>, and every key that \<open>collect\<close> returns
  is the key of an enabled definition.
\<close>

lemma variant1_excludes_disabled:
  "(\<forall>cs. mount1 True defs vals p = Some cs \<longrightarrow>
       map dataKey cs = map key (js_sort orderCompare (filter enabled defs)))
   \<and> (\<forall>d \<in> set (js_sort orderCompare (filter enabled defs)). d \<in> set defs \<and> enabled d)
   \<and> sorted_wrt (\<lambda>a b. orderCompare a b \<le> 0) (js_sort orderCompare (filter enabled defs))
   \<and> (\<forall>k \<in> fst ` set (collect1 N c defs p). \<exists>d \<in> set defs. enabled d \<and> key d = k)"
proof (intro conjI)
  show "\<forall>cs. mount1 True defs vals p = Some cs \<longrightarrow>
       map dataKey cs = map key (js_sort orderCompare (filter enabled defs))"
    by (simp add: mount1_exact renderField_def)
  show "\<forall>d \<in> set (js_sort orderCompare (filter enabled defs)). d \<in> set defs \<and> enabled d"
    by (simp add: set_js_sort)
  show "sorted_wrt (\<lambda>a b. orderCompare a b \<le> 0) (js_sort orderCompare (filter enabled defs))"
    by (rule sorted_by_order)
  show "\<forall>k \<in> fst ` set (collect1 N c defs p). \<exists>d \<in> set defs. enabled d \<and> key d = k"
  proof (cases c)
    case None
    then show ?thesis by (simp add: collect1_def)
  next
    case (Some el)
    show ?thesis
    proof
      fix k assume "k \<in> fst ` set (collect1 N c defs p)"
      then have "k \<in> fst ` set (foldl (collectStep1 N el p) [] defs)"
        using Some by (simp add: collect1_def)
      from collectStep1_keys [OF this] show "\<exists>d \<in> set defs. enabled d \<and> key d = k"
        by simp
    qed
  qed
qed

lemma safeId_examples: "safeId ''budget'' = ''budget''" "safeId ''vip'' = ''vip''"
  by (simp_all add: safeId_def safeChar_def)

lemma kindOf_examples: "kindOf ''number'' = NumberInput" "kindOf ''checkbox'' = Checkbox"
  by (simp_all add: kindOf_def toLowerCase_def lowerChar_def orElse_def)

lemma render_examples:
  "renderField disabledDef None ''cf_''
     = \<lparr>inputId = ''cf_budget'', dataKey = ''budget'', kind = NumberInput,
        requiredAttr = False, labelText = ''Budget'', shown = JStr []\<rparr>"
  "renderField enabledDef None ''cf_''
     = \<lparr>inputId = ''cf_vip'', dataKey = ''vip'', kind = Checkbox,
        requiredAttr = False, labelText = ''VIP'', shown = JStr []\<rparr>"
  by (simp_all add: renderField_def disabledDef_def enabledDef_def safeId_examples kindOf_examples)

lemma read_examples:
  "readControl exampleNumber disabledDef \<lparr>checked = False, el_value = Some ''500''\<rparr>
     = JNum (Finite 500)"
  "readControl exampleNumber enabledDef \<lparr>checked = True, el_value = Some ''on''\<rparr> = JBool True"
  by (simp_all add: readControl_def disabledDef_def enabledDef_def toLowerCase_def lowerChar_def
      orElse_def exampleNumber_def)

lemma sort_examples:
  "js_sort orderCompare [disabledDef, enabledDef] = [enabledDef, disabledDef]"
  by (simp add: js_sort_def orderCompare_def disabledDef_def enabledDef_def)

text \<open>
  C8. The claim has no disabled definition contribute a control to \<open>mount\<close> or a key to
  \<open>collect\<close>. The second variant has no check of \<^verbatim>\<open>def.enabled\<close> at all: given the disabled
  definition \<open>budget\<close> and the enabled definition \<open>vip\<close>, its \<open>mount\<close> renders both controls
  (in ascending order of \<open>order\<close>) and its \<open>collect\<close> returns both keys, where the first
  variant renders and collects \<open>vip\<close> only.
\<close>

theorem variant2_includes_disabled:
  "enabled disabledDef = False
   \<and> mount2 True [disabledDef, enabledDef] (\<lambda>k. None) ''cf_''
      = Some [\<lparr>inputId = ''cf_vip'', dataKey = ''vip'', kind = Checkbox,
               requiredAttr = False, labelText = ''VIP'', shown = JStr []\<rparr>,
              \<lparr>inputId = ''cf_budget'', dataKey = ''budget'', kind = NumberInput,
               requiredAttr = False, labelText = ''Budget'', shown = JStr []\<rparr>]
   \<and> collect2 exampleNumber exampleContainer [disabledDef, enabledDef] ''cf_''
      = [(''budget'', JNum (Finite 500)), (''vip'', JBool True)]
   \<and> mount1 True [disabledDef, enabledDef] (\<lambda>k. None) ''cf_''
      = Some [\<lparr>inputId = ''cf_vip'', dataKey = ''vip'', kind = Checkbox,
               requiredAttr = False, labelText = ''VIP'', shown = JStr []\<rparr>]
   \<and> collect1 exampleNumber (Some exampleContainer) [disabledDef, enabledDef] ''cf_''
      = [(''vip'', JBool True)]"
proof (intro conjI)
  have k: "key disabledDef = ''budget''" "key enabledDef = ''vip''"
    and en: "enabled disabledDef = False" "enabled enabledDef = True"
    by (simp_all add: disabledDef_def enabledDef_def)
  have c: "exampleContainer ''cf_budget'' = Some \<lparr>checked = False, el_value = Some ''500''\<rparr>"
    "exampleContainer ''cf_vip'' = Some \<lparr>checked = True, el_value = Some ''on''\<rparr>"
    by (simp_all add: exampleContainer_def)
  show "enabled disabledDef = False"
    by (rule en)
  show "mount2 True [disabledDef, enabledDef] (\<lambda>k. None) ''cf_''
      = Some [\<lparr>inputId = ''cf_vip'', dataKey = ''vip'', kind = Checkbox,
               requiredAttr = False, labelText = ''VIP'', shown = JStr []\<rparr>,
              \<lparr>inputId = ''cf_budget'', dataKey = ''budget'', kind = NumberInput,
               requiredAttr = False, labelText = ''Budget'', shown = JStr []\<rparr>]"
    by (simp add: mount2_def sort_examples buildField2_def render_examples)
  show "collect2 exampleNumber exampleContainer [disabledDef, enabledDef] ''cf_''
      = [(''budget'', JNum (Finite 500)), (''vip'', JBool True)]"
    by (simp add: collect2_def collectStep2_def k safeId_examples c read_examples)
  show "mount1 True [disabledDef, enabledDef] (\<lambda>k. None) ''cf_''
      = Some [\<lparr>inputId = ''cf_vip'', dataKey = ''vip'', kind = Checkbox,
               requiredAttr = False, labelText = ''VIP'', shown = JStr []\<rparr>]"
    by (simp add: mount1_def en js_sort_def buildField1_def render_examples)
  show "collect1 exampleNumber (Some exampleContainer) [disabledDef, enabledDef] ''cf_''
      = [(''vip'', JBool True)]"
    by (simp add: collect1_def collectStep1_def en k safeId_examples c read_examples)
qed

section \<open>Properties of updateActivity\<close>

lemma findIndex_Some:
  "findIndex P xs = Some k \<Longrightarrow> k < length xs \<and> P (xs ! k) \<and> find P xs = Some (xs ! k)"
proof (induction xs arbitrary: k)
  case Nil
  then show ?case by simp
next
  case (Cons x xs)
  show ?case
  proof (cases "P x")
    case True
    with Cons.prems show ?thesis by simp
  next
    case False
    with Cons.prems obtain k' where k': "findIndex P xs = Some k'" "k = Suc k'"
      by (auto split: if_splits)
    from Cons.IH [OF k'(1)] False k'(2) show ?thesis by simp
  qed
qed

lemma find_gives_index:
  "find P xs = Some x \<Longrightarrow> \<exists>k. findIndex P xs = Some k \<and> xs ! k = x"
proof (induction xs)
  case Nil
  then show ?case by simp
next
  case (Cons y ys)
  show ?case
  proof (cases "P y")
    case True
    with Cons.prems show ?thesis by simp
  next
    case False
    with Cons.prems have "find P ys = Some x" by simp
    from Cons.IH [OF this] False show ?thesis by auto
  qed
qed

lemma find_after_write:
  assumes imp: "\<And>x. P x \<Longrightarrow> Q x"
  shows "findIndex P (filter Q ys) = Some k \<Longrightarrow> k' \<le> k \<Longrightarrow> P y \<Longrightarrow>
         find P (filter Q (ys[k' := y])) = Some y"
proof (induction ys arbitrary: k k')
  case Nil
  then show ?case by simp
next
  case (Cons x xs)
  have Qy: "Q y" using Cons.prems(3) imp by blast
  show ?case
  proof (cases k')
    case 0
    with Cons.prems(3) Qy show ?thesis by simp
  next
    case (Suc j)
    show ?thesis
    proof (cases "Q x")
      case True
      have nP: "\<not> P x"
      proof
        assume "P x"
        with True Cons.prems(1) have "k = 0" by simp
        with Cons.prems(2) Suc show False by simp
      qed
      with True Cons.prems(1) obtain k0 where k0: "findIndex P (filter Q xs) = Some k0" "k = Suc k0"
        by (auto split: if_splits)
      with Cons.prems(2) Suc have "j \<le> k0" by simp
      from Cons.IH [OF k0(1) this Cons.prems(3)] True nP Suc show ?thesis by simp
    next
      case False
      with Cons.prems(1) have f: "findIndex P (filter Q xs) = Some k" by simp
      from Cons.prems(2) Suc have "j \<le> k" by simp
      from Cons.IH [OF f this Cons.prems(3)] False Suc show ?thesis by simp
    qed
  qed
qed

lemma findIndex_filter_bound:
  "findIndex P (filter Q ys) = Some k \<Longrightarrow> k < length ys"
proof -
  assume "findIndex P (filter Q ys) = Some k"
  then have "k < length (filter Q ys)" by (simp add: findIndex_Some)
  also have "\<dots> \<le> length ys" by simp
  finally show ?thesis .
qed

lemma stored_id:
  assumes "stored rows i = Some old"
  shows "act_id old = i" and "i \<noteq> []"
proof -
  from assms have "old \<in> set (loadActivities rows) \<and> act_id old = i"
    by (auto simp add: stored_def find_Some_iff)
  then show "act_id old = i" and "i \<noteq> []"
    by (auto simp add: loadActivities_def)
qed

lemma toActivity_toRow:
  "toActivity (toRow e a) =
     \<lparr>act_id = orElse (act_id a) (freshId e),
      act_type = act_type a, title = title a, date = date a, act_notes = act_notes a,
      companyId = companyId a, contactId = contactId a,
      status = orElse (status a) ''planned'',
      createdBy = orElse (createdBy a) (userEmail e),
      createdAt = orElse (createdAt a) (nowIso e)\<rparr>"
  by (simp add: toActivity_def toRow_def cell_def orElse_def)

lemma stored_after_write:
  assumes f: "findIndex (\<lambda>a. act_id a = i) (loadActivities rows) = Some k"
    and i: "i \<noteq> []" and r: "act_id (toActivity r) = i"
  shows "stored (rows[k := r]) i = Some (toActivity r)"
proof -
  have "find (\<lambda>a. act_id a = i)
          (filter (\<lambda>a. act_id a \<noteq> []) ((map toActivity rows)[k := toActivity r]))
        = Some (toActivity r)"
    using f i r unfolding loadActivities_def
    by (intro find_after_write [where k = k]) auto
  then show ?thesis
    by (simp add: stored_def loadActivities_def map_update)
qed

lemma updateActivity_found:
  assumes s: "stored rows i = Some old"
    and v: "valid (validateActivity cfg (spread old u i))"
  shows "\<exists>k < length rows.
           updateActivity cfg e rows i u
             = Inr (rows[k := toRow e (spread old u i)], spread old u i)
           \<and> stored (rows[k := toRow e (spread old u i)]) i
             = Some (toActivity (toRow e (spread old u i)))"
proof -
  from s obtain k where k: "findIndex (\<lambda>a. act_id a = i) (loadActivities rows) = Some k"
      "loadActivities rows ! k = old"
    unfolding stored_def using find_gives_index by fastforce
  have len: "k < length rows"
    using findIndex_filter_bound [of "\<lambda>a. act_id a = i" "\<lambda>a. act_id a \<noteq> []" "map toActivity rows" k] k(1)
    by (simp add: loadActivities_def)
  have i: "i \<noteq> []" using stored_id [OF s] by simp
  have "act_id (toActivity (toRow e (spread old u i))) = i"
    using i by (simp add: toActivity_toRow spread_def orElse_def)
  from stored_after_write [OF k(1) i this]
  have st: "stored (rows[k := toRow e (spread old u i)]) i
             = Some (toActivity (toRow e (spread old u i)))" .
  have "updateActivity cfg e rows i u
             = Inr (rows[k := toRow e (spread old u i)], spread old u i)"
    using k v len by (simp add: updateActivity_def Let_def saveActivity_def)
  with st len show ?thesis by blast
qed


lemma validateActivity_status: "validateActivity cfg (a\<lparr>status := s\<rparr>) = validateActivity cfg a"
  by (simp add: validateActivity_def Let_def split: option.splits)

lemma spread_status_only:
  "act_id old = i \<Longrightarrow> spread old (noUpdates\<lparr>u_status := Some s\<rparr>) i = old\<lparr>status := s\<rparr>"
  by (simp add: spread_def noUpdates_def carried_def)

lemma status_stored_row: "status (toActivity (toRow e a)) = orElse (status a) ''planned''"
  by (simp add: toActivity_toRow orElse_def)

lemma update_sets_status:
  assumes s: "stored rows i = Some old"
    and v: "valid (validateActivity cfg (spread old u i))"
  shows "\<exists>rows'. updateActivity cfg e rows i u = Inr (rows', spread old u i)
          \<and> storedStatus rows' i = Some (orElse (carried (u_status u) (status old)) ''planned'')"
proof -
  from updateActivity_found [OF s v, of e] obtain k where
    k: "updateActivity cfg e rows i u = Inr (rows[k := toRow e (spread old u i)], spread old u i)"
       "stored (rows[k := toRow e (spread old u i)]) i = Some (toActivity (toRow e (spread old u i)))"
    by blast
  have "storedStatus (rows[k := toRow e (spread old u i)]) i
      = Some (orElse (carried (u_status u) (status old)) ''planned'')"
    by (simp add: storedStatus_def k(2) status_stored_row) (simp add: spread_def)
  with k(1) show ?thesis by blast
qed

text \<open>
  The claim C1 makes \<open>completed\<close> and \<open>cancelled\<close> terminal. \<open>updateActivity\<close> spreads the
  updates over the stored record and writes the result, whatever the stored status was,
  and \<open>completeActivity\<close> and \<open>cancelActivity\<close> only call it: a completed activity is
  cancelled by \<open>cancelActivity\<close> and is planned again after an update that carries the
  status \<open>planned\<close>.
\<close>

theorem terminal_status_is_overwritten:
  "storedStatus doneRows ''a2'' = Some COMPLETED
   \<and> storedStatus (sheetAfter doneRows (cancelActivity exampleConfig exampleEnv doneRows ''a2'')) ''a2''
       = Some CANCELLED
   \<and> storedStatus (sheetAfter doneRows
        (updateActivity exampleConfig exampleEnv doneRows ''a2'' (noUpdates\<lparr>u_status := Some PLANNED\<rparr>)))
        ''a2'' = Some PLANNED"
  by (simp add: storedStatus_def stored_def sheetAfter_def cancelActivity_def updateActivity_def
      saveActivity_def validateActivity_def spread_def noUpdates_def carried_def
      loadActivities_def doneRows_def toActivity_def toRow_def cell_def orElse_def
      exampleConfig_def exampleTypes_def isoLike_def exampleEnv_def
      PLANNED_def COMPLETED_def CANCELLED_def)

text \<open>
  C1, as the code has it. For an activity stored under the id whose merged record passes
  validation, \<open>updateActivity\<close> succeeds and the status stored afterwards is the one the
  updates carry (the previous status when they carry none, \<open>planned\<close> when they carry an
  empty one); \<open>completeActivity\<close> and \<open>cancelActivity\<close> store \<open>completed\<close> and \<open>cancelled\<close>
  whatever the previous status was. No status is terminal.
\<close>

theorem status_after_update:
  assumes "stored rows i = Some old"
  shows "(valid (validateActivity cfg (spread old u i)) \<longrightarrow>
            (\<exists>rows'. updateActivity cfg e rows i u = Inr (rows', spread old u i)
               \<and> storedStatus rows' i
                   = Some (orElse (carried (u_status u) (status old)) ''planned'')))
       \<and> (valid (validateActivity cfg old) \<longrightarrow>
            storedStatus (sheetAfter rows (completeActivity cfg e rows i)) i = Some COMPLETED
            \<and> storedStatus (sheetAfter rows (cancelActivity cfg e rows i)) i = Some CANCELLED)"
proof (intro conjI impI)
  assume "valid (validateActivity cfg (spread old u i))"
  from update_sets_status [OF assms this]
  show "\<exists>rows'. updateActivity cfg e rows i u = Inr (rows', spread old u i)
               \<and> storedStatus rows' i
                   = Some (orElse (carried (u_status u) (status old)) ''planned'')" .
next
  assume v: "valid (validateActivity cfg old)"
  have id: "act_id old = i" using stored_id [OF assms] by simp
  have v': "valid (validateActivity cfg (spread old (noUpdates\<lparr>u_status := Some COMPLETED\<rparr>) i))"
    using v by (simp add: spread_status_only [OF id] validateActivity_status)
  from update_sets_status [OF assms v', of e]
  show "storedStatus (sheetAfter rows (completeActivity cfg e rows i)) i = Some COMPLETED"
    by (auto simp add: completeActivity_def sheetAfter_def noUpdates_def carried_def orElse_def
        COMPLETED_def)
next
  assume v: "valid (validateActivity cfg old)"
  have id: "act_id old = i" using stored_id [OF assms] by simp
  have v': "valid (validateActivity cfg (spread old (noUpdates\<lparr>u_status := Some CANCELLED\<rparr>) i))"
    using v by (simp add: spread_status_only [OF id] validateActivity_status)
  from update_sets_status [OF assms v', of e]
  show "storedStatus (sheetAfter rows (cancelActivity cfg e rows i)) i = Some CANCELLED"
    by (auto simp add: cancelActivity_def sheetAfter_def noUpdates_def carried_def orElse_def
        CANCELLED_def)
qed


theorem status_after_update_witness:
  "stored doneRows ''a2''
     = Some \<lparr>act_id = ''a2'', act_type = ''MEETING'', title = ''Kickoff'',
             date = ''2024-06-01T09:00:00.000Z'', act_notes = ''done'', companyId = ''c1'',
             contactId = ''p1'', status = ''completed'', createdBy = ''anna@example.com'',
             createdAt = ''2024-05-20T08:00:00.000Z''\<rparr>
   \<and> storedStatus (sheetAfter doneRows (completeActivity exampleConfig exampleEnv doneRows ''a2'')) ''a2''
       = Some COMPLETED
   \<and> storedStatus (sheetAfter doneRows (cancelActivity exampleConfig exampleEnv doneRows ''a2'')) ''a2''
       = Some CANCELLED"
proof -
  let ?old = "\<lparr>act_id = ''a2'', act_type = ''MEETING'', title = ''Kickoff'',
             date = ''2024-06-01T09:00:00.000Z'', act_notes = ''done'', companyId = ''c1'',
             contactId = ''p1'', status = ''completed'', createdBy = ''anna@example.com'',
             createdAt = ''2024-05-20T08:00:00.000Z''\<rparr>"
  have s: "stored doneRows ''a2'' = Some ?old"
    by (simp add: stored_def loadActivities_def doneRows_def toActivity_def cell_def orElse_def)
  have v: "valid (validateActivity exampleConfig ?old)"
    by (simp add: validateActivity_def exampleConfig_def exampleTypes_def isoLike_def)
  from status_after_update [OF s, of exampleConfig noUpdates exampleEnv] v
  have "storedStatus (sheetAfter doneRows (completeActivity exampleConfig exampleEnv doneRows ''a2'')) ''a2''
          = Some COMPLETED
        \<and> storedStatus (sheetAfter doneRows (cancelActivity exampleConfig exampleEnv doneRows ''a2'')) ''a2''
          = Some CANCELLED"
    by blast
  with s show ?thesis by blast
qed







text \<open>
  A remark on the row addressing. The index passed to \<open>saveActivity\<close> is the position in
  the loaded list, from which cleared rows have been dropped; below a cleared row it is
  one less than the data row of the activity, and the write lands on the row above. In
  the example sheet, completing \<open>a4\<close> overwrites the row of \<open>a3\<close>.
\<close>

lemma update_after_cleared_row_overwrites_neighbour:
  "map act_id (loadActivities exampleRows) = [''a1'', ''a2'', ''a3'', ''a4'']
   \<and> map act_id (loadActivities
        (sheetAfter exampleRows (completeActivity exampleConfig exampleEnv exampleRows ''a4'')))
       = [''a1'', ''a2'', ''a4'', ''a4'']"
  by (simp add: sheetAfter_def completeActivity_def updateActivity_def
      saveActivity_def validateActivity_def spread_def noUpdates_def carried_def
      loadActivities_def exampleRows_def toActivity_def toRow_def cell_def orElse_def
      exampleConfig_def exampleTypes_def isoLike_def exampleEnv_def COMPLETED_def)

end
